theory Spec2Isabelle
  imports Main "HOL-Library.AList"
begin

section \<open>The ephemeral file server (class FileServer)\<close>

subsection \<open>The folder on disk and Node's \<open>fs\<close> primitives\<close>

text \<open>
  A \<open>Buffer\<close> is a list of bytes. The serving folder is the list of its directory
  entries, in the order \<open>readdirSync\<close> lists them, each with what \<open>lstat\<close> would see
  there. A symbolic link carries what it resolves to (\<open>None\<close>: the link dangles).
  File names handed to the server come out of \<open>filenamify\<close> and hold no path separator,
  so \<open>resolve(this.folder, filename)\<close> and \<open>join(this.folder, file)\<close> both select the
  entry of that name.
\<close>

type_synonym buffer = "nat list"

datatype link_target = TargetFile | TargetDirectory

datatype node = RegularFile buffer | Directory | SymbolicLink "link_target option"

type_synonym dir = "(string \<times> node) list"

text \<open>What a \<open>fs.Stats\<close> object describes.\<close>

datatype stats = StatFile | StatDirectory | StatSymbolicLink

definition isSymbolicLink :: "stats \<Rightarrow> bool" where
  "isSymbolicLink st = (st = StatSymbolicLink)"

text \<open>\<open>statSync\<close> follows links; \<open>None\<close> is the ENOENT it throws.\<close>

fun statSync :: "node option \<Rightarrow> stats option" where
  "statSync None = None"
| "statSync (Some (RegularFile b)) = Some StatFile"
| "statSync (Some Directory) = Some StatDirectory"
| "statSync (Some (SymbolicLink None)) = None"
| "statSync (Some (SymbolicLink (Some TargetFile))) = Some StatFile"
| "statSync (Some (SymbolicLink (Some TargetDirectory))) = Some StatDirectory"

text \<open>\<open>existsSync\<close> follows links as well: a dangling link does not exist.\<close>

definition existsSync :: "node option \<Rightarrow> bool" where
  "existsSync n = (statSync n \<noteq> None)"

text \<open>
  \<open>unlinkSync\<close> removes the entry itself (a link, not its target). It throws (\<open>None\<close>)
  on a missing entry, on a directory, and where the system denies it.
\<close>

definition unlink_entry :: "(string \<Rightarrow> bool) \<Rightarrow> string \<Rightarrow> dir \<Rightarrow> dir option" where
  "unlink_entry denied name d =
     (case map_of d name of
        None \<Rightarrow> None
      | Some Directory \<Rightarrow> None
      | Some n \<Rightarrow> if denied name then None else Some (AList.delete name d))"

text \<open>
  \<open>writeFileSync\<close> creates or replaces a regular file and writes through a link to a
  file (the target lies outside the folder; a dangling link gets its target created).
  It throws on a directory and where the system denies it.
\<close>

definition write_entry :: "(string \<Rightarrow> bool) \<Rightarrow> string \<Rightarrow> buffer \<Rightarrow> dir \<Rightarrow> dir option" where
  "write_entry denied name data d =
     (if denied name then None
      else case map_of d name of
        Some Directory \<Rightarrow> None
      | Some (SymbolicLink (Some TargetDirectory)) \<Rightarrow> None
      | Some (SymbolicLink t) \<Rightarrow> Some (AList.update name (SymbolicLink (Some TargetFile)) d)
      | _ \<Rightarrow> Some (AList.update name (RegularFile data) d))"

subsection \<open>The server object, its folder and the runtime's timers\<close>

text \<open>
  A pending timer of the runtime: its handle, the file name its callback
  \<open>() => this.delete(filename)\<close> closes over, and the delay in milliseconds it is
  armed with.
\<close>

record timer =
  tid :: nat
  on_fire :: string
  delay :: int

text \<open>
  \<open>folder\<close> and \<open>timeouts\<close> are the object's fields (\<open>timeouts\<close> holds
  \<open>{filename, timeout}\<close> pairs, the timeout as the timer's handle); \<open>disk\<close> is the
  folder's content, \<open>denied\<close> the names the system refuses to write or unlink,
  \<open>timers\<close> the runtime's pending timers and \<open>next_timer\<close> its next fresh handle.
\<close>

record fileserver =
  folder :: string
  timeouts :: "(string \<times> nat) list"
  disk :: dir
  denied :: "string \<Rightarrow> bool"
  timers :: "timer list"
  next_timer :: nat

text \<open>
  Node arms a timer with the delay it is given when that lies between 1 and
  \<open>TIMEOUT_MAX\<close> = 2147483647 milliseconds, and with 1 millisecond otherwise. Delays and
  lifetimes are whole numbers here.
\<close>

definition TIMEOUT_MAX :: int where
  "TIMEOUT_MAX = 2147483647"

definition armed :: "int \<Rightarrow> int" where
  "armed ms = (if 1 \<le> ms \<and> ms \<le> TIMEOUT_MAX then ms else 1)"

definition setTimeout :: "string \<Rightarrow> int \<Rightarrow> fileserver \<Rightarrow> nat \<times> fileserver" where
  "setTimeout filename ms s =
     (next_timer s,
      s\<lparr>timers := timers s @ [\<lparr>tid = next_timer s, on_fire = filename, delay = armed ms\<rparr>],
        next_timer := Suc (next_timer s)\<rparr>)"

definition clearTimeout :: "nat \<Rightarrow> fileserver \<Rightarrow> fileserver" where
  "clearTimeout h s = s\<lparr>timers := filter (\<lambda>t. tid t \<noteq> h) (timers s)\<rparr>"

definition unlinkSync :: "string \<Rightarrow> fileserver \<Rightarrow> fileserver option" where
  "unlinkSync filename s =
     (case unlink_entry (denied s) filename (disk s) of
        None \<Rightarrow> None
      | Some d \<Rightarrow> Some (s\<lparr>disk := d\<rparr>))"

definition writeFileSync :: "string \<Rightarrow> buffer \<Rightarrow> fileserver \<Rightarrow> fileserver option" where
  "writeFileSync filename data s =
     (case write_entry (denied s) filename data (disk s) of
        None \<Rightarrow> None
      | Some d \<Rightarrow> Some (s\<lparr>disk := d\<rparr>))"

text \<open>\<open>find.timeout = ...\<close>: the assignment to the first entry of that file name.\<close>

fun assign_timeout :: "string \<Rightarrow> nat \<Rightarrow> (string \<times> nat) list \<Rightarrow> (string \<times> nat) list" where
  "assign_timeout filename h [] = []"
| "assign_timeout filename h ((f, t) # rest) =
     (if f = filename then (f, h) # rest else (f, t) # assign_timeout filename h rest)"

definition resetFile :: "string \<Rightarrow> int \<Rightarrow> fileserver \<Rightarrow> bool \<times> fileserver" where
  "resetFile filename lifetime s =
     (case List.find (\<lambda>(f, t). f = filename) (timeouts s) of
        Some (f, t) \<Rightarrow>
          (let s1 = clearTimeout t s;
               (h, s2) = setTimeout filename (lifetime * 1000) s1
           in (True, s2\<lparr>timeouts := assign_timeout filename h (timeouts s2)\<rparr>))
      | None \<Rightarrow> (False, s))"

definition initFile :: "string \<Rightarrow> buffer \<Rightarrow> int \<Rightarrow> fileserver \<Rightarrow> bool \<times> fileserver" where
  "initFile filename buffer lifetime s =
     (case writeFileSync filename buffer s of
        None \<Rightarrow> (False, s)
      | Some s1 \<Rightarrow>
          (let (h, s2) = setTimeout filename (lifetime * 1000) s1
           in (True, s2\<lparr>timeouts := timeouts s2 @ [(filename, h)]\<rparr>)))"

definition serv :: "buffer \<Rightarrow> string \<Rightarrow> int \<Rightarrow> fileserver \<Rightarrow> string \<times> fileserver" where
  "serv data filename lifetime s =
     (let (exist, s1) = resetFile filename lifetime s in
      if exist then (''/files/'' @ filename, s1)
      else
        let (create, s2) = initFile filename data lifetime s1 in
        if create then (''/files/'' @ filename, s2)
        else (''/files/'' @ filename, s2))"

text \<open>\<open>serv(data, filename)\<close> with the default \<open>lifetime = 600\<close>.\<close>

definition serv_default :: "buffer \<Rightarrow> string \<Rightarrow> fileserver \<Rightarrow> string \<times> fileserver" where
  "serv_default data filename s = serv data filename 600 s"

text \<open>
  \<open>delete\<close>: everything runs inside one \<open>try\<close>; when \<open>unlinkSync\<close> throws, the table
  has been filtered already and the method returns \<open>false\<close>.
\<close>

definition delete :: "string \<Rightarrow> fileserver \<Rightarrow> bool \<times> fileserver" where
  "delete filename s =
     (let s1 = (case List.find (\<lambda>(f, t). f = filename) (timeouts s) of
                  Some (f, t) \<Rightarrow> clearTimeout t s
                | None \<Rightarrow> s);
          s2 = s1\<lparr>timeouts := filter (\<lambda>(f, t). f \<noteq> filename) (timeouts s1)\<rparr>
      in case unlinkSync filename s2 of
           Some s3 \<Rightarrow> (True, s3)
         | None \<Rightarrow> (False, s2))"

text \<open>A pending timer expires: the runtime drops it and runs its callback.\<close>

definition expire :: "nat \<Rightarrow> fileserver \<Rightarrow> fileserver" where
  "expire h s =
     (case List.find (\<lambda>t. tid t = h) (timers s) of
        None \<Rightarrow> s
      | Some t \<Rightarrow> snd (delete (on_fire t) (s\<lparr>timers := filter (\<lambda>t. tid t \<noteq> h) (timers s)\<rparr>)))"

text \<open>What can happen to a constructed server: calls of \<open>serv\<close> and \<open>delete\<close>, and expiries.\<close>

datatype fs_op = Serv buffer string int | Delete string | Expire nat

fun fs_step :: "fs_op \<Rightarrow> fileserver \<Rightarrow> fileserver" where
  "fs_step (Serv data filename lifetime) s = snd (serv data filename lifetime s)"
| "fs_step (Delete filename) s = snd (delete filename s)"
| "fs_step (Expire h) s = expire h s"

definition fs_run :: "fs_op list \<Rightarrow> fileserver \<Rightarrow> fileserver" where
  "fs_run ops s = fold fs_step ops s"

subsection \<open>Construction: \<open>setup\<close> and the purge \<open>empty\<close>\<close>

text \<open>What lies at the resolved folder path before construction.\<close>

datatype folder_state = Missing | NotADirectory | Folder dir

text \<open>
  The loop of \<open>empty\<close> over the names \<open>readdirSync\<close> returned. The second component
  is the log of the names \<open>unlinkSync\<close> was called on; a failed \<open>unlinkSync\<close> is caught
  and ignored. \<open>Inl\<close> is a thrown error's message.
\<close>

fun purge :: "(string \<Rightarrow> bool) \<Rightarrow> string list \<Rightarrow> dir \<Rightarrow> string list \<Rightarrow> string + (dir \<times> string list)" where
  "purge den [] d log = Inr (d, log)"
| "purge den (file # files) d log =
     (if existsSync (map_of d file) then
        (case statSync (map_of d file) of
           None \<Rightarrow> Inl ''ENOENT''
         | Some stat \<Rightarrow>
             if \<not> isSymbolicLink stat then
               (case unlink_entry den file d of
                  Some d' \<Rightarrow> purge den files d' (log @ [file])
                | None \<Rightarrow> purge den files d (log @ [file]))
             else purge den files d log)
      else purge den files d log)"

definition empty_folder :: "(string \<Rightarrow> bool) \<Rightarrow> string \<Rightarrow> folder_state \<Rightarrow> string + (dir \<times> string list)" where
  "empty_folder den path fo =
     (case fo of
        Missing \<Rightarrow> Inl (path @ '' does not exist'')
      | NotADirectory \<Rightarrow> Inl ''ENOTDIR''
      | Folder d \<Rightarrow> purge den (map fst d) d [])"

text \<open>\<open>setup\<close>: \<open>mkdirSync\<close> when nothing exists at the path; \<open>mk\<close> says whether it can succeed.\<close>

definition setup_folder :: "bool \<Rightarrow> folder_state \<Rightarrow> string + folder_state" where
  "setup_folder mk fo =
     (case fo of
        Missing \<Rightarrow> if mk then Inr (Folder []) else Inl ''EACCES''
      | _ \<Rightarrow> Inr fo)"

text \<open>
  The constructor: \<open>USER_DATA\<close> from the environment (\<open>None\<close>: undefined), the folder
  argument, and the file system it meets. \<open>resolve(USER_DATA, '.cache', folder)\<close> is
  written for plain path segments.
\<close>

definition new_FileServer ::
  "string option \<Rightarrow> string \<Rightarrow> bool \<Rightarrow> (string \<Rightarrow> bool) \<Rightarrow> folder_state \<Rightarrow> string + (fileserver \<times> string list)" where
  "new_FileServer user_data name mk den fo =
     (case user_data of
        None \<Rightarrow> Inl ''USER_DATA not set''
      | Some u \<Rightarrow>
          if u = [] then Inl ''USER_DATA not set''
          else
            let path = u @ ''/.cache/'' @ name in
            case setup_folder mk fo of
              Inl e \<Rightarrow> Inl e
            | Inr fo1 \<Rightarrow>
                (case empty_folder den path fo1 of
                   Inl e \<Rightarrow> Inl e
                 | Inr (d, log) \<Rightarrow>
                     Inr (\<lparr>folder = path, timeouts = [], disk = d, denied = den,
                           timers = [], next_timer = 0\<rparr>, log)))"

section \<open>The scraper base class (class Mirror)\<close>

subsection \<open>JavaScript values\<close>

text \<open>
  The values that pass through the fetch engine: what a transport resolves to or throws,
  and what \<open>fetch\<close> returns. \<open>JError msg\<close> is an instance of \<open>Error\<close> with that
  message, \<open>JBuffer\<close> an instance of \<open>Buffer\<close>, \<open>JCheerio html\<close> the document
  \<open>load(html)\<close> returns.
\<close>

datatype jsval =
    JUndefined
  | JNull
  | JBoolean bool
  | JNumber int
  | JString string
  | JArray "jsval list"
  | JObject "(string \<times> jsval) list"
  | JBuffer buffer
  | JError string
  | JCheerio string

fun typeof :: "jsval \<Rightarrow> string" where
  "typeof JUndefined = ''undefined''"
| "typeof JNull = ''object''"
| "typeof (JBoolean b) = ''boolean''"
| "typeof (JNumber n) = ''number''"
| "typeof (JString s) = ''string''"
| "typeof (JArray xs) = ''object''"
| "typeof (JObject kvs) = ''object''"
| "typeof (JBuffer b) = ''object''"
| "typeof (JError msg) = ''object''"
| "typeof (JCheerio html) = ''function''"

fun instanceof_Error :: "jsval \<Rightarrow> bool" where
  "instanceof_Error (JError msg) = True"
| "instanceof_Error v = False"

fun message :: "jsval \<Rightarrow> string" where
  "message (JError msg) = msg"
| "message v = []"

text \<open>What \<open>if(v)\<close>, \<open>!v\<close> and \<open>v || d\<close> test.\<close>

fun truthy :: "jsval \<Rightarrow> bool" where
  "truthy JUndefined = False"
| "truthy JNull = False"
| "truthy (JBoolean b) = b"
| "truthy (JNumber n) = (n \<noteq> 0)"
| "truthy (JString s) = (s \<noteq> [])"
| "truthy v = True"

text \<open>\<open>s || d\<close> on an optional string: undefined and the empty string give \<open>d\<close>.\<close>

definition or_else :: "string option \<Rightarrow> string \<Rightarrow> string" where
  "or_else opt dflt = (case opt of None \<Rightarrow> dflt | Some s \<Rightarrow> if s = [] then dflt else s)"

text \<open>\<open>s.startsWith(p)\<close> and \<open>s.includes(sub)\<close>.\<close>

definition startsWith :: "string \<Rightarrow> string \<Rightarrow> bool" where
  "startsWith s p = (take (length p) s = p)"

definition str_includes :: "string \<Rightarrow> string \<Rightarrow> bool" where
  "str_includes s sub = list_ex (\<lambda>i. take (length sub) (drop i s) = sub) [0..<Suc (length s)]"

text \<open>
  \<open>host.replace(rx, '')\<close> with the global pattern of the source, which matches
  \<open>https://\<close> and \<open>http://\<close>: every occurrence is removed, scanning from the left.
\<close>

fun strip_scheme :: "string \<Rightarrow> string" where
  "strip_scheme [] = []"
| "strip_scheme (c # cs) =
     (if take 8 (c # cs) = ''https://'' then strip_scheme (drop 7 cs)
      else if take 7 (c # cs) = ''http://'' then strip_scheme (drop 6 cs)
      else c # strip_scheme cs)"

subsection \<open>Requests, the environment and the instance\<close>

text \<open>
  \<open>ClusterJob\<close> (its declaration is outside the sources): the fields the class reads
  and writes. \<open>headers\<close> is the property list of the headers object (empty when
  undefined), \<open>cookies\<close> the optional array of \<open>{name, value}\<close>.
\<close>

record ClusterJob =
  url :: string
  referer :: "string option"
  headers :: "(string \<times> string) list"
  cookies :: "(string \<times> string) list option"
  waitForSelector :: "string option"
  timeout :: "int option"

text \<open>An \<open>AxiosRequestConfig\<close> handed through by the caller, as a property list.\<close>

type_synonym AxiosRequestConfig = "(string \<times> jsval) list"

text \<open>A thrown value is \<open>Inl\<close>, a returned one \<open>Inr\<close>.\<close>

type_synonym 'a result = "jsval + 'a"

text \<open>
  What the class calls and does not define. The transports answer a request with a
  value or throw:
  \<^item> \<open>axios_get url cfg\<close> is \<open>axios.get(url, cfg)\<close> of \<open>#internalFetch\<close>, resolved to
    \<open>response.data\<close>;
  \<^item> \<open>axios_get_arraybuffer url referer config\<close> is the call of \<open>downloadImage\<close> with
    \<open>{responseType: 'arraybuffer', headers: {referer}, ...config, timeout: 5000}\<close>,
    resolved to \<open>Buffer.from(ab.data)\<close>;
  \<^item> \<open>axios_method type url data config\<close> is \<open>axios[type](url, data, {...config, timeout: 5000})\<close>
    of \<open>post\<close>, resolved to \<open>resp.data\<close>;
  \<^item> \<open>crawler job config isBinary type\<close> is the rendering transport on the job with
    \<open>config\<close> spread over it.
  \<open>selector_found sel html\<close> is \<open>$(sel).length\<close> being non-zero in the document loaded
  from \<open>html\<close>; \<open>USER_DATA\<close> is the environment variable; \<open>cacheEnabled\<close> the getter over
  the settings database; \<open>cache_writable\<close> whether a write into the cache directory
  succeeds. The library functions: \<open>fileTypeFromBuffer\<close> is the dynamic import of
  \<open>file-type\<close> followed by the detection, and answers the detected mime type (\<open>Inr None\<close>:
  undefined) or throws (\<open>Inl\<close>: the import or the detector failed); \<open>filenamify\<close> is the
  dynamic import of \<open>filenamify\<close> followed by the call, and may throw likewise;
  \<open>JSON_parse\<close> answers \<open>None\<close> where \<open>JSON.parse\<close> throws; \<open>URL_parse\<close> answers origin,
  pathname and search of \<open>new URL(url)\<close> (\<open>None\<close>: it throws); \<open>base64 b\<close> is
  \<open>b.toString('base64')\<close>.
\<close>

record env =
  USER_DATA :: "string option"
  cacheEnabled :: bool
  cache_writable :: bool
  axios_get :: "string \<Rightarrow> ClusterJob \<Rightarrow> jsval result"
  axios_get_arraybuffer :: "string \<Rightarrow> string \<Rightarrow> AxiosRequestConfig option \<Rightarrow> buffer result"
  axios_method :: "string \<Rightarrow> string \<Rightarrow> jsval \<Rightarrow> AxiosRequestConfig option \<Rightarrow> jsval result"
  crawler :: "ClusterJob \<Rightarrow> AxiosRequestConfig option \<Rightarrow> bool \<Rightarrow> string option \<Rightarrow> jsval result"
  selector_found :: "string \<Rightarrow> string \<Rightarrow> bool"
  fileTypeFromBuffer :: "buffer \<Rightarrow> string option result"
  JSON_parse :: "string \<Rightarrow> jsval option"
  JSON_stringify :: "jsval \<Rightarrow> string"
  URL_parse :: "string \<Rightarrow> (string \<times> string \<times> string) option"
  filenamify :: "string \<Rightarrow> string result"
  base64 :: "buffer \<Rightarrow> string"

text \<open>The instance's fields the fetch engine reads; \<open>options_cache\<close> is \<open>this.options.cache\<close>.\<close>

record Mirror =
  name :: string
  version :: int
  host :: string
  waitTime :: int
  options_cache :: bool

text \<open>\<open>this.waitTime = opts.waitTime || 200\<close> of the constructor.\<close>

definition init_waitTime :: "int option \<Rightarrow> int" where
  "init_waitTime opt = (case opt of None \<Rightarrow> 200 | Some n \<Rightarrow> if n = 0 then 200 else n)"

text \<open>What the transports and the timer were asked, in order.\<close>

datatype event = Waited int | AxiosCall string | CrawlerCall string

text \<open>
  The mutable world of one instance: its private counter \<open>#concurrency\<close>, its cache
  directory \<open><USER_DATA>/.cache/<name>/\<close> by file name, the process-wide
  \<open>FileServer._instance\<close> (\<open>None\<close> before the first \<open>getInstance(folder)\<close>), and the
  trace of what was called.
\<close>

record world =
  concurrency :: int
  cache_dir :: "string \<rightharpoonup> buffer"
  file_server :: "fileserver option"
  trace :: "event list"

subsection \<open>The rate limiter's counter\<close>

text \<open>\<open>this.#concurrency++\<close>, the first statement of \<open>fetch\<close>, \<open>post\<close> and \<open>downloadImage\<close>.\<close>

definition enter :: "int \<Rightarrow> int" where
  "enter c = c + 1"

text \<open>\<open>this.#concurrency--\<close> of the failure paths of \<open>fetch\<close>.\<close>

definition decrement :: "int \<Rightarrow> int" where
  "decrement c = c - 1"

text \<open>The decrement of \<open>#returnFetch\<close>, with its floor.\<close>

definition decrement_floor :: "int \<Rightarrow> int" where
  "decrement_floor c = (let c1 = c - 1 in if c1 < 0 then 0 else c1)"

text \<open>
  \<open>#wait\<close>: the delay handed to \<open>setTimeout\<close> is \<open>this.waitTime * this.#concurrency\<close>,
  read when \<open>#wait\<close> is called; the world records the delay asked for (the runtime arms
  the timer with \<open>armed\<close> of it).
\<close>

definition wait_ms :: "Mirror \<Rightarrow> int \<Rightarrow> int" where
  "wait_ms m c = waitTime m * c"

definition wait :: "Mirror \<Rightarrow> world \<Rightarrow> world" where
  "wait m w = w\<lparr>trace := trace w @ [Waited (wait_ms m (concurrency w))]\<rparr>"

subsection \<open>\<open>#returnFetch\<close>\<close>

text \<open>\<open>FileServer.getInstance()\<close> without a folder: the instance, or the error it throws.\<close>

definition getInstance :: "world \<Rightarrow> fileserver result" where
  "getInstance w =
     (case file_server w of
        Some srv \<Rightarrow> Inr srv
      | None \<Rightarrow> Inl (JError (''couldn'' @ [CHR 0x27] @ ''t create instance, no folder given'')))"

text \<open>
  The single decrement with its floor comes first; a \<open>Buffer\<close> with a non-empty file
  name is then handed to the file server and its path returned.
\<close>

definition returnFetch :: "jsval \<Rightarrow> string option \<Rightarrow> world \<Rightarrow> jsval result \<times> world" where
  "returnFetch data filename w =
     (let w1 = w\<lparr>concurrency := decrement_floor (concurrency w)\<rparr> in
      case data of
        JBuffer b \<Rightarrow>
          if or_else filename [] \<noteq> [] then
            (case getInstance w1 of
               Inl err \<Rightarrow> (Inl err, w1)
             | Inr srv \<Rightarrow>
                 (let (path, srv') = serv_default b (or_else filename []) srv
                  in (Inr (JString path), w1\<lparr>file_server := Some srv'\<rparr>)))
          else (Inr data, w1)
      | _ \<Rightarrow> (Inr data, w1))"

subsection \<open>The response cache\<close>

text \<open>The identifier (normalised URL) and the file name derived from it.\<close>

definition generateCacheFilename :: "env \<Rightarrow> string \<Rightarrow> bool \<Rightarrow> (string \<times> string) result" where
  "generateCacheFilename e u dependsOnParams =
     (case URL_parse e u of
        None \<Rightarrow> Inl (JError ''Invalid URL'')
      | Some (origin, pathname, search) \<Rightarrow>
          (let identifier = origin @ pathname @ (if dependsOnParams then search else [])
           in case filenamify e identifier of
                Inl thrown \<Rightarrow> Inl thrown
              | Inr filename \<Rightarrow> Inr (identifier, filename)))"

text \<open>\<open>getFileMime\<close>: the detected type, \<open>image/jpeg\<close> when none is detected.\<close>

definition getFileMime :: "env \<Rightarrow> buffer \<Rightarrow> string result" where
  "getFileMime e buffer =
     (case fileTypeFromBuffer e buffer of
        Inl thrown \<Rightarrow> Inl thrown
      | Inr (Some mime) \<Rightarrow> Inr mime
      | Inr None \<Rightarrow> Inr ''image/jpeg'')"

text \<open>
  The \<open>try\<close> holds \<open>readFileSync\<close> and, for a cover, \<open>await this.getFileMime(buffer)\<close>:
  when either throws, the \<open>catch\<close> makes it a miss, \<open>undefined\<close>.
\<close>

definition loadFromCache :: "env \<Rightarrow> string \<Rightarrow> string \<Rightarrow> world \<Rightarrow> jsval result" where
  "loadFromCache e filename returnType w =
     (case USER_DATA e of
        None \<Rightarrow> Inl (JError ''USER_DATA is not defined'')
      | Some u \<Rightarrow>
          if cacheEnabled e then
            (case cache_dir w filename of
               None \<Rightarrow> Inr JUndefined
             | Some buffer \<Rightarrow>
                 if returnType = ''cover'' then
                   (case getFileMime e buffer of
                      Inl thrown \<Rightarrow> Inr JUndefined
                    | Inr mime \<Rightarrow>
                        Inr (JString (''data:'' @ mime @ '';base64,'' @ base64 e buffer)))
                 else Inr (JBuffer buffer))
          else Inr JUndefined)"

text \<open>
  \<open>#saveToCache\<close> is called without \<open>await\<close>: what it throws rejects a promise nobody
  reads, and the caller goes on.
\<close>

definition saveToCache :: "env \<Rightarrow> string \<Rightarrow> buffer \<Rightarrow> world \<Rightarrow> world" where
  "saveToCache e filename buffer w =
     (case USER_DATA e of
        None \<Rightarrow> w
      | Some u \<Rightarrow>
          if cacheEnabled e \<and> cache_writable e
          then w\<lparr>cache_dir := (cache_dir w)(filename \<mapsto> buffer)\<rparr>
          else w)"

subsection \<open>\<open>downloadImage\<close>\<close>

text \<open>
  The part of \<open>downloadImage\<close> after the two transports, on the buffer they left. What
  \<open>getFileMime\<close> throws here is caught nowhere and leaves \<open>downloadImage\<close>.
\<close>

definition image_result ::
  "env \<Rightarrow> Mirror \<Rightarrow> string \<Rightarrow> string \<Rightarrow> buffer option \<Rightarrow> world \<Rightarrow> jsval result \<times> world" where
  "image_result e m returnType filename buffer w =
     (case buffer of
        None \<Rightarrow> returnFetch JUndefined None w
      | Some b \<Rightarrow>
          (case getFileMime e b of
             Inl thrown \<Rightarrow> (Inl thrown, w)
           | Inr mime \<Rightarrow>
               if mime \<noteq> [] \<and> startsWith mime ''image/'' then
                 (let w1 = (if options_cache m then saveToCache e filename b w else w) in
                  if returnType = ''page'' then returnFetch (JBuffer b) (Some filename) w1
                  else returnFetch
                         (JString (''data:'' @ mime @ '';charset=utf-8;base64,'' @ base64 e b)) None w1)
               else (Inr JUndefined, w)))"

definition downloadImage ::
  "env \<Rightarrow> Mirror \<Rightarrow> string \<Rightarrow> string \<Rightarrow> string option \<Rightarrow> bool \<Rightarrow> AxiosRequestConfig option
     \<Rightarrow> world \<Rightarrow> jsval result \<times> world" where
  "downloadImage e m u returnType ref dependsOnParams config w =
     (let w1 = w\<lparr>concurrency := enter (concurrency w)\<rparr> in
      case generateCacheFilename e u dependsOnParams of
        Inl err \<Rightarrow> (Inl err, w1)
      | Inr (identifier, filename) \<Rightarrow>
          (case loadFromCache e filename returnType w1 of
             Inl err \<Rightarrow> (Inl err, w1)
           | Inr cache \<Rightarrow>
               if truthy cache then returnFetch cache (Some filename) w1
               else
                 (let w2 = wait m w1;
                      w3 = w2\<lparr>trace := trace w2 @ [AxiosCall u]\<rparr>
                  in case axios_get_arraybuffer e u (or_else ref (host m)) config of
                       Inr b \<Rightarrow> image_result e m returnType filename (Some b) w3
                     | Inl thrown \<Rightarrow>
                         (let w4 = w3\<lparr>trace := trace w3 @ [CrawlerCall u]\<rparr> in
                          case crawler e
                                 \<lparr>url = u, referer = Some (or_else ref (host m)), headers = [],
                                  cookies = None,
                                  waitForSelector =
                                    Some (''img[src^='' @ [CHR 0x22] @ identifier @ [CHR 0x22] @ '']''),
                                  timeout = Some 10000\<rparr>
                                 config True None of
                            Inl err \<Rightarrow> (Inl err, w4)
                          | Inr (JBuffer b) \<Rightarrow> image_result e m returnType filename (Some b) w4
                          | Inr res \<Rightarrow> image_result e m returnType filename None w4))))"

subsection \<open>\<open>post\<close>\<close>

text \<open>
  \<open>post\<close> returns \<open>resp.data\<close>, or \<open>undefined\<close> once the thrown error is logged. After
  the increment on its first line it does not touch the counter again.
\<close>

definition post ::
  "env \<Rightarrow> Mirror \<Rightarrow> string \<Rightarrow> jsval \<Rightarrow> string \<Rightarrow> AxiosRequestConfig option \<Rightarrow> world
     \<Rightarrow> jsval result \<times> world" where
  "post e m u data type config w =
     (let w1 = w\<lparr>concurrency := enter (concurrency w)\<rparr>;
          w2 = wait m w1;
          w3 = w2\<lparr>trace := trace w2 @ [AxiosCall u]\<rparr>
      in case axios_method e type u data config of
           Inr d \<Rightarrow> (Inr d, w3)
         | Inl thrown \<Rightarrow> (Inr JUndefined, w3))"

subsection \<open>\<open>fetch\<close> and the transport chain \<open>#internalFetch\<close>\<close>

text \<open>\<open>.join(' ')\<close> over the \<open>name=value;\<close> strings of the cookies.\<close>

fun join_cookies :: "string list \<Rightarrow> string" where
  "join_cookies [] = []"
| "join_cookies [c] = c"
| "join_cookies (c # cs) = c @ '' '' @ join_cookies cs"

text \<open>The preparation of \<open>config.headers\<close> at the head of \<open>#internalFetch\<close>.\<close>

definition prepare :: "Mirror \<Rightarrow> ClusterJob \<Rightarrow> string \<Rightarrow> ClusterJob" where
  "prepare m config type =
     (let h1 = (if type \<noteq> ''json''
                then AList.update ''referer'' (or_else (referer config) (strip_scheme (host m)))
                       (headers config)
                else headers config);
          h2 = (case cookies config of
                  None \<Rightarrow> h1
                | Some cs \<Rightarrow>
                    AList.update ''Cookie''
                      (join_cookies (map (\<lambda>(n, v). n @ ''='' @ v @ '';'') cs)
                         @ '' path=/; domain='' @ strip_scheme (host m)) h1)
      in config\<lparr>headers := h2\<rparr>)"

text \<open>The \<open>try\<close> block: the direct attempt and its check of the selector.\<close>

definition direct_attempt :: "env \<Rightarrow> ClusterJob \<Rightarrow> jsval result" where
  "direct_attempt e config =
     (case axios_get e (url config) (config\<lparr>timeout := Some 5000\<rparr>) of
        Inl thrown \<Rightarrow> Inl thrown
      | Inr (JString body) \<Rightarrow>
          if or_else (waitForSelector config) [] \<noteq> [] then
            (if selector_found e (or_else (waitForSelector config) []) body
             then Inr (JString body)
             else Inl (JError ''selector_not_found''))
          else Inr (JString body)
      | Inr data \<Rightarrow>
          if or_else (waitForSelector config) [] \<noteq> []
          then Inl (JError (''no_selector_in_'' @ typeof data))
          else Inr data)"

text \<open>
  \<open>#internalFetch\<close>: the value it returns or throws, and the transports it called, in
  order. The \<open>catch\<close> rethrows an \<open>Error\<close> whose message includes \<open>no_selector_in_\<close>
  and hands everything else to the rendering transport.
\<close>

definition internalFetch :: "env \<Rightarrow> Mirror \<Rightarrow> ClusterJob \<Rightarrow> string \<Rightarrow> jsval result \<times> event list" where
  "internalFetch e m config0 type =
     (let config = prepare m config0 type in
      case direct_attempt e config of
        Inr data \<Rightarrow> (Inr data, [AxiosCall (url config)])
      | Inl thrown \<Rightarrow>
          if instanceof_Error thrown \<and> str_includes (message thrown) ''no_selector_in_''
          then (Inl thrown, [AxiosCall (url config)])
          else (crawler e (config\<lparr>timeout := Some 10000\<rparr>) None False (Some type),
                [AxiosCall (url config), CrawlerCall (url config)]))"

text \<open>
  \<open>fetch\<close>: what \<open>#internalFetch\<close> throws propagates as it is; the paths that throw
  afterwards decrement the counter themselves (\<open>failed\<close>), the others return through
  \<open>#returnFetch\<close>.
\<close>

definition fetch :: "env \<Rightarrow> Mirror \<Rightarrow> ClusterJob \<Rightarrow> string \<Rightarrow> world \<Rightarrow> jsval result \<times> world" where
  "fetch e m config type w =
     (let w1 = w\<lparr>concurrency := enter (concurrency w)\<rparr>;
          w2 = wait m w1;
          (r, called) = internalFetch e m config type;
          w3 = w2\<lparr>trace := trace w2 @ called\<rparr>;
          failed = w3\<lparr>concurrency := decrement (concurrency w3)\<rparr>
      in case r of
           Inl thrown \<Rightarrow> (Inl thrown, w3)
         | Inr res \<Rightarrow>
             if typeof res = ''undefined'' \<or> instanceof_Error res
             then (Inl (if truthy res then res else JError ''no_response''), failed)
             else if typeof res = ''string'' then
               (if type = ''string'' then returnFetch res None w3
                else if type = ''html'' then
                  returnFetch (case res of JString s \<Rightarrow> JCheerio s | v \<Rightarrow> v) None w3
                else if type = ''json'' then
                  (case JSON_parse e (case res of JString s \<Rightarrow> s | v \<Rightarrow> []) of
                     Some v \<Rightarrow> returnFetch v None w3
                   | None \<Rightarrow> (Inl (JError ''invalid_json''), failed))
                else (Inl (JError (''unknown_type: '' @ type)), failed))
             else if typeof res = ''object'' then
               (if type = ''json'' then returnFetch res None w3
                else if type = ''string'' then returnFetch (JString (JSON_stringify e res)) None w3
                else if type = ''html'' then (Inl (JError ''cant_parse_json_to_html''), failed)
                else (Inl (JError (''unknown_type: '' @ type)), failed))
             else (Inl (JError ''unknown_fetch_error''), failed))"

subsection \<open>Calls in flight\<close>

text \<open>
  The three operations suspend at their \<open>await\<close>s, so calls on one instance interleave.
  For the counter a call is two steps: it enters (the increment on its first line) and,
  when it completes, leaves on one of three paths: through \<open>#returnFetch\<close>, through a
  plain \<open>this.#concurrency--\<close>, or without touching the counter. \<open>may_exit\<close> lists
  the paths each operation has (lemmas \<open>fetch_counter\<close>, \<open>downloadImage_counter\<close> and
  \<open>post_counter\<close> below); \<open>in_flight\<close> holds the calls that entered and have not
  completed.
\<close>

datatype operation = Fetch | DownloadImage | Post

datatype exit_path = ThroughReturnFetch | PlainDecrement | NoDecrement

fun may_exit :: "operation \<Rightarrow> exit_path \<Rightarrow> bool" where
  "may_exit Fetch x = True"
| "may_exit DownloadImage x = (x \<noteq> PlainDecrement)"
| "may_exit Post x = (x = NoDecrement)"

fun exit_counter :: "exit_path \<Rightarrow> int \<Rightarrow> int" where
  "exit_counter ThroughReturnFetch c = decrement_floor c"
| "exit_counter PlainDecrement c = decrement c"
| "exit_counter NoDecrement c = c"

datatype activity = Begin operation | Complete operation exit_path

record limiter =
  counter :: int
  in_flight :: "operation list"

definition fresh_limiter :: limiter where
  "fresh_limiter = \<lparr>counter = 0, in_flight = []\<rparr>"

fun limiter_step :: "activity \<Rightarrow> limiter \<Rightarrow> limiter option" where
  "limiter_step (Begin opn) s =
     Some \<lparr>counter = enter (counter s), in_flight = opn # in_flight s\<rparr>"
| "limiter_step (Complete opn x) s =
     (if opn \<in> set (in_flight s) \<and> may_exit opn x
      then Some \<lparr>counter = exit_counter x (counter s), in_flight = remove1 opn (in_flight s)\<rparr>
      else None)"

fun limiter_run :: "activity list \<Rightarrow> limiter \<Rightarrow> limiter option" where
  "limiter_run [] s = Some s"
| "limiter_run (a # as) s =
     (case limiter_step a s of None \<Rightarrow> None | Some s' \<Rightarrow> limiter_run as s')"

subsection \<open>Entity builders and \<open>#uuidv5\<close>\<close>

text \<open>
  The library store and the identifier generator are outside the sources. A stored
  record is read for its \<open>id\<close> only; \<open>MangaDatabase.get\<close> is asked with \<open>{id, langs}\<close>
  or with \<open>{mirror, langs, url}\<close>. The generator keeps a state of its own, of type \<open>'g\<close>.
\<close>

record stored_manga =
  stored_id :: string

datatype db_query = ById string "string list" | ByUrl string "string list" string

record uuid =
  uuid_mirror :: "string \<times> int"
  uuid_langs :: "string list"
  uuid_url :: string
  uuid_id :: "string option"

record 'g library =
  MangaDatabase_get :: "db_query \<Rightarrow> stored_manga option"
  MangaDatabase_has :: "string \<Rightarrow> string list \<Rightarrow> string \<Rightarrow> bool"
  uuidgen_generate :: "'g \<Rightarrow> uuid \<Rightarrow> bool \<Rightarrow> string \<times> 'g"
  Date_now :: int

definition uuidv5 ::
  "'g library \<Rightarrow> Mirror \<Rightarrow> bool \<Rightarrow> string list \<Rightarrow> string \<Rightarrow> string option \<Rightarrow> 'g
     \<Rightarrow> string result \<times> 'g" where
  "uuidv5 lib m force langs u ident g =
     (if force \<and> or_else ident [] \<noteq> [] then
        (case MangaDatabase_get lib (ById (or_else ident []) langs) of
           Some mg \<Rightarrow> (Inr (stored_id mg), g)
         | None \<Rightarrow>
             (let (fresh_id, g') =
                    uuidgen_generate lib g
                      \<lparr>uuid_mirror = (name m, version m), uuid_langs = langs, uuid_url = u,
                       uuid_id = ident\<rparr> True
              in (Inr fresh_id, g')))
      else if \<not> force \<and> u \<noteq> [] then
        (case MangaDatabase_get lib (ByUrl (name m) langs u) of
           Some mg \<Rightarrow> (Inr (stored_id mg), g)
         | None \<Rightarrow>
             (let (fresh_id, g') =
                    uuidgen_generate lib g
                      \<lparr>uuid_mirror = (name m, version m), uuid_langs = langs, uuid_url = u,
                       uuid_id = ident\<rparr> False
              in (Inr fresh_id, g')))
      else (Inl (JError ''uuidgen: missing options''), g))"

text \<open>
  The builders' arguments and results: the fields the builders read or set; every other
  field of the argument is carried over by \<open>...mg\<close> and kept here in the argument itself.
\<close>

record manga_chapter =
  ch_id :: string
  ch_lang :: string
  ch_url :: string
  ch_number :: int
  ch_date :: int
  ch_read :: bool

record manga_arg =
  mg_id :: "string option"
  mg_langs :: "string list"
  mg_url :: string
  mg_chapters :: "manga_chapter list"

record MangaPage =
  page_of :: manga_arg
  page_id :: string
  page_chapters :: "manga_chapter list"
  page_mirror :: "string \<times> int"
  page_inLibrary :: bool
  page_userCategories :: "string list"

record chapter_arg =
  ca_id :: "string option"
  ca_lang :: string
  ca_url :: string
  ca_number :: int
  ca_date :: "int option"
  ca_read :: "bool option"

record search_arg =
  sa_id :: "string option"
  sa_langs :: "string list"
  sa_url :: string

record SearchResult =
  result_of :: search_arg
  result_id :: string
  result_mirror :: Mirror
  result_inLibrary :: bool

definition mangaPageBuilder ::
  "'g library \<Rightarrow> Mirror \<Rightarrow> manga_arg \<Rightarrow> 'g \<Rightarrow> MangaPage result \<times> 'g" where
  "mangaPageBuilder lib m mg g =
     (let (r, g') = (if or_else (mg_id mg) [] \<noteq> []
                     then uuidv5 lib m True (mg_langs mg) (mg_url mg) (mg_id mg) g
                     else uuidv5 lib m False (mg_langs mg) (mg_url mg) None g)
      in case r of
           Inl thrown \<Rightarrow> (Inl thrown, g')
         | Inr ident \<Rightarrow>
             (Inr \<lparr>page_of = mg, page_id = ident,
                   page_chapters = sort_key ch_number (mg_chapters mg),
                   page_mirror = (name m, version m),
                   page_inLibrary = MangaDatabase_has lib (name m) (mg_langs mg) (mg_url mg),
                   page_userCategories = []\<rparr>, g'))"

definition chaptersBuilder ::
  "'g library \<Rightarrow> Mirror \<Rightarrow> chapter_arg \<Rightarrow> 'g \<Rightarrow> manga_chapter result \<times> 'g" where
  "chaptersBuilder lib m c g =
     (let (r, g') = (if or_else (ca_id c) [] \<noteq> []
                     then uuidv5 lib m True [ca_lang c] (ca_url c) (ca_id c) g
                     else uuidv5 lib m False [ca_lang c] (ca_url c) None g)
      in case r of
           Inl thrown \<Rightarrow> (Inl thrown, g')
         | Inr ident \<Rightarrow>
             (Inr \<lparr>ch_id = ident, ch_lang = ca_lang c, ch_url = ca_url c, ch_number = ca_number c,
                   ch_date = (case ca_date c of
                                None \<Rightarrow> Date_now lib
                              | Some d \<Rightarrow> if d = 0 then Date_now lib else d),
                   ch_read = (case ca_read c of None \<Rightarrow> False | Some b \<Rightarrow> b)\<rparr>, g'))"

definition searchResultsBuilder ::
  "'g library \<Rightarrow> Mirror \<Rightarrow> search_arg \<Rightarrow> 'g \<Rightarrow> SearchResult result \<times> 'g" where
  "searchResultsBuilder lib m mg g =
     (let (r, g') = (if or_else (sa_id mg) [] \<noteq> []
                     then uuidv5 lib m True (sa_langs mg) (sa_url mg) (sa_id mg) g
                     else uuidv5 lib m False (sa_langs mg) (sa_url mg) None g)
      in case r of
           Inl thrown \<Rightarrow> (Inl thrown, g')
         | Inr ident \<Rightarrow>
             (Inr \<lparr>result_of = mg, result_id = ident, result_mirror = m,
                   result_inLibrary = MangaDatabase_has lib (name m) (sa_langs mg) (sa_url mg)\<rparr>,
              g'))"

section \<open>Predicates and sample data for the properties\<close>

text \<open>
  An entry the purge removes: it exists for \<open>existsSync\<close>, \<open>unlinkSync\<close> accepts it (it
  is no directory) and the system does not deny it.
\<close>

definition purgeable :: "(string \<Rightarrow> bool) \<Rightarrow> string \<times> node \<Rightarrow> bool" where
  "purgeable den e = (existsSync (Some (snd e)) \<and> snd e \<noteq> Directory \<and> \<not> den (fst e))"

text \<open>
  The table and the runtime agree: file names in the table are distinct, handles of the
  pending timers are distinct and below the next fresh one, and the pending timers are
  exactly the table's entries.
\<close>

definition tracked :: "fileserver \<Rightarrow> bool" where
  "tracked s \<longleftrightarrow>
     distinct (map fst (timeouts s)) \<and> distinct (map tid (timers s))
     \<and> (\<forall>t \<in> set (timers s). tid t < next_timer s)
     \<and> (\<lambda>t. (on_fire t, tid t)) ` set (timers s) = set (timeouts s)"

text \<open>The pending timers whose callback deletes \<open>filename\<close>.\<close>

definition live_timers :: "string \<Rightarrow> fileserver \<Rightarrow> timer list" where
  "live_timers filename s = filter (\<lambda>t. on_fire t = filename) (timers s)"

text \<open>A server as the constructor leaves it.\<close>

definition fresh :: "fileserver \<Rightarrow> bool" where
  "fresh s \<longleftrightarrow> timeouts s = [] \<and> timers s = []"

definition srv0 :: fileserver where
  "srv0 = \<lparr>folder = ''/data/.cache/files'', timeouts = [], disk = [], denied = (\<lambda>n. False),
           timers = [], next_timer = 0\<rparr>"

definition sample_mirror :: Mirror where
  "sample_mirror = \<lparr>name = ''mirror'', version = 2, host = ''https://www.mirror.com'',
                     waitTime = init_waitTime None, options_cache = True\<rparr>"

definition sample_job :: ClusterJob where
  "sample_job = \<lparr>url = ''https://www.mirror.com/manga/xyz'', referer = None, headers = [],
                  cookies = Some [(''session'', ''abc'')], waitForSelector = Some ''div.chapters'',
                  timeout = None\<rparr>"

text \<open>
  An environment to evaluate in: the direct transport answers every request with a page
  that is neither JSON nor holds the selector, the rendering transport with a rendered
  page, images come back as the two bytes of the text \<open>hi\<close>, which are of no known type.
  The detector knows the signatures of JPEG and PDF; \<open>base64\<close> is right on the bytes used.
\<close>

definition sample_env :: env where
  "sample_env =
     \<lparr>USER_DATA = Some ''/data'', cacheEnabled = True, cache_writable = True,
      axios_get = (\<lambda>u cfg. Inr (JString ''<html>loading</html>'')),
      axios_get_arraybuffer = (\<lambda>u r cfg. Inr [104, 105]),
      axios_method = (\<lambda>t u d cfg. Inl (JError ''timeout of 5000ms exceeded'')),
      crawler = (\<lambda>job cfg bin t. Inr (JString ''<html>rendered</html>'')),
      selector_found = (\<lambda>sel html. html = ''<html>rendered</html>''),
      fileTypeFromBuffer =
        (\<lambda>b. if take 2 b = [255, 216] then Inr (Some ''image/jpeg'')
             else if take 4 b = [37, 80, 68, 70] then Inr (Some ''application/pdf'')
             else Inr None),
      JSON_parse = (\<lambda>s. None),
      JSON_stringify = (\<lambda>v. ''{}''),
      URL_parse = (\<lambda>u. Some (''https://cdn.mirror.com'', ''/covers/xyz'', ''?token=7'')),
      filenamify = (\<lambda>s. Inr ''https!cdn.mirror.com!covers!xyz''),
      base64 = (\<lambda>b. if b = [104, 105] then ''aGk='' else [])\<rparr>"

definition sample_world :: world where
  "sample_world = \<lparr>concurrency = 0, cache_dir = Map.empty, file_server = Some srv0, trace = []\<rparr>"

text \<open>
  Modelled from the spec: the identifier generator \<open>uuidgen\<close> is outside the sources; the
  spec treats it as ``an opaque function from (source, language-set, url, optional forced
  id) to a stable identifier string''. So the identifier it answers depends on the
  request alone, whatever state the generator is in.
\<close>

definition stable_generator :: "'g library \<Rightarrow> bool" where
  "stable_generator lib \<longleftrightarrow>
     (\<forall>g g' request force.
        fst (uuidgen_generate lib g request force) = fst (uuidgen_generate lib g' request force))"

text \<open>The identifier of what a builder returned; \<open>None\<close> when it threw.\<close>

definition id_of :: "('a \<Rightarrow> string) \<Rightarrow> 'a result \<times> 'g \<Rightarrow> string option" where
  "id_of sel r = (case fst r of Inl thrown \<Rightarrow> None | Inr x \<Rightarrow> Some (sel x))"

text \<open>
  A library store that knows one record, and a generator that derives the identifier
  from the request and counts its calls.
\<close>

definition sample_library :: "nat library" where
  "sample_library =
     \<lparr>MangaDatabase_get =
        (\<lambda>q. case q of
                ById i ls \<Rightarrow> if i = ''4d6f'' \<and> ls = [''en''] then Some \<lparr>stored_id = ''4d6f''\<rparr> else None
              | ByUrl mi ls u \<Rightarrow> None),
      MangaDatabase_has = (\<lambda>mi ls u. False),
      uuidgen_generate =
        (\<lambda>g request force.
           (fst (uuid_mirror request) @ '':'' @ concat (uuid_langs request) @ '':'' @ uuid_url request,
            Suc g)),
      Date_now = 1700000000000\<rparr>"

definition sample_manga :: manga_arg where
  "sample_manga = \<lparr>mg_id = None, mg_langs = [''en''], mg_url = ''/manga/xyz'', mg_chapters = []\<rparr>"

section \<open>Properties of the file server\<close>

lemma delete_table:
  "timeouts (snd (delete filename s)) = filter (\<lambda>(f, t). f \<noteq> filename) (timeouts s)"
  by (simp add: delete_def unlinkSync_def clearTimeout_def Let_def
      split: option.splits prod.splits)

text \<open>
  C7. \<open>delete(filename)\<close> on a file name with no entry in the folder returns
  \<open>false\<close> (the method is total: nothing is thrown past its \<open>try\<close>), leaves the
  folder as it was, and afterwards the timer table holds no entry for the file name.
\<close>

theorem delete_missing_file:
  assumes "map_of (disk s) filename = None"
  shows "fst (delete filename s) = False
         \<and> filename \<notin> fst ` set (timeouts (snd (delete filename s)))
         \<and> disk (snd (delete filename s)) = disk s"
proof -
  have u: "\<And>s'. disk s' = disk s \<Longrightarrow> unlinkSync filename s' = None"
    using assms by (simp add: unlinkSync_def unlink_entry_def)
  have "fst (delete filename s) = False \<and> disk (snd (delete filename s)) = disk s"
    by (simp add: delete_def Let_def u clearTimeout_def split: option.splits prod.splits)
  moreover have "filename \<notin> fst ` set (timeouts (snd (delete filename s)))"
    by (auto simp: delete_table)
  ultimately show ?thesis by simp
qed

theorem delete_missing_file_witness:
  "fst (delete ''a.png''
      \<lparr>folder = ''/data/.cache/files'', timeouts = [(''a.png'', 0)], disk = [],
       denied = (\<lambda>n. False),
       timers = [\<lparr>tid = 0, on_fire = ''a.png'', delay = 600000\<rparr>], next_timer = 1\<rparr>) = False
   \<and> ''a.png'' \<notin> fst ` set (timeouts (snd (delete ''a.png''
      \<lparr>folder = ''/data/.cache/files'', timeouts = [(''a.png'', 0)], disk = [],
       denied = (\<lambda>n. False),
       timers = [\<lparr>tid = 0, on_fire = ''a.png'', delay = 600000\<rparr>], next_timer = 1\<rparr>)))"
  using delete_missing_file [of
      "\<lparr>folder = ''/data/.cache/files'', timeouts = [(''a.png'', 0)], disk = [],
       denied = (\<lambda>n. False),
       timers = [\<lparr>tid = 0, on_fire = ''a.png'', delay = 600000\<rparr>], next_timer = 1\<rparr>" "''a.png''"]
  by simp

lemma stat_never_symlink: "statSync n \<noteq> Some StatSymbolicLink"
  by (cases n rule: statSync.cases) simp_all

lemma delete_eq_filter: "AList.delete k d = filter (\<lambda>e. fst e \<noteq> k) d"
  by (induction d) auto

lemma map_of_filter_other:
  "g \<noteq> f \<Longrightarrow> map_of (filter (\<lambda>e. fst e \<noteq> f) d) g = map_of d g"
  by (induction d) auto

lemma purge_step:
  assumes "distinct (map fst d)"
  shows "purge den (f # fs) d tried =
     (if existsSync (map_of d f)
      then purge den fs (filter (\<lambda>e. \<not> (fst e = f \<and> purgeable den e)) d) (tried @ [f])
      else purge den fs d tried)"
proof (cases "map_of d f")
  case None
  then show ?thesis by (simp add: existsSync_def)
next
  case (Some n)
  then have mem: "(f, n) \<in> set d" by (rule map_of_SomeD)
  have uniq: "\<And>e. e \<in> set d \<Longrightarrow> fst e = f \<Longrightarrow> e = (f, n)"
    using assms mem by (metis eq_key_imp_eq_value prod.collapse)
  have keep: "\<not> purgeable den (f, n) \<Longrightarrow> filter (\<lambda>e. \<not> (fst e = f \<and> purgeable den e)) d = d"
    using uniq by (auto intro!: filter_True)
  have drop: "purgeable den (f, n) \<Longrightarrow>
      filter (\<lambda>e. \<not> (fst e = f \<and> purgeable den e)) d = filter (\<lambda>e. fst e \<noteq> f) d"
    using uniq by (auto intro!: filter_cong)
  show ?thesis
  proof (cases "existsSync (Some n)")
    case False
    then show ?thesis using Some by simp
  next
    case True
    then obtain st where st: "statSync (Some n) = Some st" by (auto simp: existsSync_def)
    have ns: "\<not> isSymbolicLink st"
      using st stat_never_symlink [of "Some n"] by (auto simp: isSymbolicLink_def)
    show ?thesis
    proof (cases "purgeable den (f, n)")
      case True
      then have "unlink_entry den f d = Some (filter (\<lambda>e. fst e \<noteq> f) d)"
        using Some by (auto simp: unlink_entry_def purgeable_def delete_eq_filter split: node.splits)
      then show ?thesis using Some \<open>existsSync (Some n)\<close> st ns drop [OF True] by simp
    next
      case False
      then have "unlink_entry den f d = None"
        using Some \<open>existsSync (Some n)\<close> by (auto simp: unlink_entry_def purgeable_def split: node.splits)
      then show ?thesis using Some \<open>existsSync (Some n)\<close> st ns keep [OF False] by simp
    qed
  qed
qed

lemma purge_eq:
  "distinct fs \<Longrightarrow> distinct (map fst d) \<Longrightarrow>
   purge den fs d tried =
     Inr (filter (\<lambda>e. \<not> (fst e \<in> set fs \<and> purgeable den e)) d,
          tried @ filter (\<lambda>f. existsSync (map_of d f)) fs)"
proof (induction fs arbitrary: d tried)
  case Nil
  then show ?case by simp
next
  case (Cons f fs)
  let ?d = "filter (\<lambda>e. \<not> (fst e = f \<and> purgeable den e)) d"
  have dd: "distinct (map fst ?d)" using Cons.prems(2) by (simp add: distinct_map_filter)
  have same: "\<And>g. g \<in> set fs \<Longrightarrow> map_of ?d g = map_of d g"
  proof -
    fix g assume "g \<in> set fs"
    then have "g \<noteq> f" using Cons.prems(1) by auto
    then show "map_of ?d g = map_of d g" by (induction d) auto
  qed
  have fl: "filter (\<lambda>g. existsSync (map_of ?d g)) fs = filter (\<lambda>g. existsSync (map_of d g)) fs"
    using same by (auto intro!: filter_cong)
  have ff: "filter (\<lambda>e. \<not> (fst e \<in> set fs \<and> purgeable den e)) ?d
          = filter (\<lambda>e. \<not> (fst e \<in> set (f # fs) \<and> purgeable den e)) d"
    by (auto intro!: filter_cong)
  have nex: "\<not> existsSync (map_of d f) \<Longrightarrow>
      filter (\<lambda>e. \<not> (fst e \<in> set (f # fs) \<and> purgeable den e)) d
       = filter (\<lambda>e. \<not> (fst e \<in> set fs \<and> purgeable den e)) d"
  proof -
    assume a: "\<not> existsSync (map_of d f)"
    have "\<And>e. e \<in> set d \<Longrightarrow> fst e = f \<Longrightarrow> \<not> purgeable den e"
    proof -
      fix e assume "e \<in> set d" "fst e = f"
      then have "map_of d f = Some (snd e)" using Cons.prems(2) by (metis map_of_is_SomeI prod.collapse)
      then show "\<not> purgeable den e" using a by (simp add: purgeable_def)
    qed
    then show ?thesis by (auto intro!: filter_cong)
  qed
  show ?case
  proof (cases "existsSync (map_of d f)")
    case True
    have "purge den (f # fs) d tried = purge den fs ?d (tried @ [f])"
      by (simp only: purge_step [OF Cons.prems(2)] True if_True)
    also have "\<dots> = Inr (filter (\<lambda>e. \<not> (fst e \<in> set fs \<and> purgeable den e)) ?d,
          (tried @ [f]) @ filter (\<lambda>g. existsSync (map_of ?d g)) fs)"
      using Cons.prems(1) dd by (intro Cons.IH) auto
    finally show ?thesis using True by (simp only: ff fl) simp
  next
    case False
    have "purge den (f # fs) d tried = purge den fs d tried"
      by (simp only: purge_step [OF Cons.prems(2)] False if_False)
    also have "\<dots> = Inr (filter (\<lambda>e. \<not> (fst e \<in> set fs \<and> purgeable den e)) d,
          tried @ filter (\<lambda>g. existsSync (map_of d g)) fs)"
      using Cons.prems by (intro Cons.IH) auto
    finally show ?thesis using False nex by simp
  qed
qed

lemma find_table_Some:
  "List.find (\<lambda>(f, t). f = filename) xs = Some (g, h) \<Longrightarrow> g = filename \<and> (filename, h) \<in> set xs"
  by (induction xs) (auto split: if_splits)

lemma find_table_None:
  "List.find (\<lambda>(f, t). f = filename) xs = None \<longleftrightarrow> filename \<notin> fst ` set xs"
  by (induction xs) (auto split: if_splits)

lemma map_fst_assign: "map fst (assign_timeout filename h xs) = map fst xs"
  by (induction xs) auto

lemma set_assign:
  "distinct (map fst xs) \<Longrightarrow> (filename, t) \<in> set xs \<Longrightarrow>
   set (assign_timeout filename h xs) = insert (filename, h) (set xs - {(filename, t)})"
proof (induction xs)
  case Nil
  then show ?case by simp
next
  case (Cons p xs)
  obtain a b where p: "p = (a, b)" by (cases p)
  show ?case
  proof (cases "a = filename")
    case True
    then have "(filename, t) \<notin> set xs" using Cons.prems(1) p by (auto simp: rev_image_eqI)
    then have "b = t" using Cons.prems(2) p True by auto
    then show ?thesis using p True \<open>(filename, t) \<notin> set xs\<close> by auto
  next
    case False
    then have "set (assign_timeout filename h xs) = insert (filename, h) (set xs - {(filename, t)})"
      using Cons p by auto
    then show ?thesis using p False by auto
  qed
qed

lemma tracked_handle_unique:
  assumes "tracked s" "(f, h) \<in> set (timeouts s)" "(g, h) \<in> set (timeouts s)"
  shows "f = g"
proof -
  obtain t1 where t1: "t1 \<in> set (timers s)" "on_fire t1 = f" "tid t1 = h"
    using assms(1,2) unfolding tracked_def by (metis (mono_tags, lifting) imageE prod.inject)
  obtain t2 where t2: "t2 \<in> set (timers s)" "on_fire t2 = g" "tid t2 = h"
    using assms(1,3) unfolding tracked_def by (metis (mono_tags, lifting) imageE prod.inject)
  have "distinct (map tid (timers s))" using assms(1) by (simp add: tracked_def)
  then have "t1 = t2" using t1 t2 by (metis distinct_map inj_onD)
  then show ?thesis using t1 t2 by simp
qed

lemma tracked_image_without:
  assumes "tracked s" "(f, h) \<in> set (timeouts s)"
  shows "(\<lambda>t. (on_fire t, tid t)) ` set (filter (\<lambda>t. tid t \<noteq> h) (timers s)) = set (timeouts s) - {(f, h)}"
proof -
  have img: "(\<lambda>t. (on_fire t, tid t)) ` set (timers s) = set (timeouts s)"
    using assms(1) by (simp add: tracked_def)
  show ?thesis
  proof (intro set_eqI iffI)
    fix p assume "p \<in> (\<lambda>t. (on_fire t, tid t)) ` set (filter (\<lambda>t. tid t \<noteq> h) (timers s))"
    then obtain t where "t \<in> set (timers s)" "tid t \<noteq> h" "p = (on_fire t, tid t)" by auto
    then show "p \<in> set (timeouts s) - {(f, h)}" using img by auto
  next
    fix p assume p: "p \<in> set (timeouts s) - {(f, h)}"
    then obtain t where t: "t \<in> set (timers s)" "p = (on_fire t, tid t)" using img by auto
    have "tid t \<noteq> h"
    proof
      assume "tid t = h"
      then have "(on_fire t, h) \<in> set (timeouts s)" using p t by auto
      then have "on_fire t = f" using tracked_handle_unique [OF assms(1) _ assms(2)] by simp
      then show False using p t \<open>tid t = h\<close> by simp
    qed
    then show "p \<in> (\<lambda>t. (on_fire t, tid t)) ` set (filter (\<lambda>t. tid t \<noteq> h) (timers s))"
      using t by auto
  qed
qed

lemma tracked_resetFile:
  assumes "tracked s"
  shows "tracked (snd (resetFile filename lifetime s))"
proof (cases "List.find (\<lambda>(f, t). f = filename) (timeouts s)")
  case None
  then show ?thesis using assms by (simp add: resetFile_def)
next
  case (Some p)
  obtain g h where p: "p = (g, h)" by (cases p)
  have mem: "(filename, h) \<in> set (timeouts s)" using Some p find_table_Some by fastforce
  let ?new = "\<lparr>tid = next_timer s, on_fire = filename, delay = armed (lifetime * 1000)\<rparr>"
  have eq: "snd (resetFile filename lifetime s) =
      s\<lparr>timers := filter (\<lambda>t. tid t \<noteq> h) (timers s) @ [?new],
        next_timer := Suc (next_timer s),
        timeouts := assign_timeout filename (next_timer s) (timeouts s)\<rparr>"
    using Some p by (simp add: resetFile_def setTimeout_def clearTimeout_def)
  have d1: "distinct (map fst (timeouts s))" and d2: "distinct (map tid (timers s))"
    and b: "\<forall>t \<in> set (timers s). tid t < next_timer s"
    using assms by (simp_all add: tracked_def)
  have i: "(\<lambda>t. (on_fire t, tid t)) ` set (filter (\<lambda>t. tid t \<noteq> h) (timers s)) = set (timeouts s) - {(filename, h)}"
    by (rule tracked_image_without [OF assms mem])
  have "distinct (map tid (filter (\<lambda>t. tid t \<noteq> h) (timers s) @ [?new]))"
    using d2 b by (auto simp: distinct_map_filter)
  moreover have "(\<lambda>t. (on_fire t, tid t)) ` set (filter (\<lambda>t. tid t \<noteq> h) (timers s) @ [?new])
      = set (assign_timeout filename (next_timer s) (timeouts s))"
    using i by (simp add: set_assign [OF d1 mem] image_Un)
  moreover have "\<forall>t \<in> set (filter (\<lambda>t. tid t \<noteq> h) (timers s) @ [?new]). tid t < Suc (next_timer s)"
    using b by (auto simp: less_Suc_eq)
  ultimately show ?thesis
    unfolding eq tracked_def using d1 by (simp add: map_fst_assign)
qed

lemma tracked_initFile:
  assumes "tracked s" "filename \<notin> fst ` set (timeouts s)"
  shows "tracked (snd (initFile filename buffer lifetime s))"
proof (cases "writeFileSync filename buffer s")
  case None
  then show ?thesis using assms by (simp add: initFile_def)
next
  case (Some s1)
  then obtain d where s1: "s1 = s\<lparr>disk := d\<rparr>"
    by (auto simp: writeFileSync_def split: option.splits)
  have eq: "snd (initFile filename buffer lifetime s) =
      s\<lparr>disk := d, timers := timers s @ [\<lparr>tid = next_timer s, on_fire = filename, delay = armed (lifetime * 1000)\<rparr>],
        next_timer := Suc (next_timer s), timeouts := timeouts s @ [(filename, next_timer s)]\<rparr>"
    using Some s1 by (simp add: initFile_def setTimeout_def)
  show ?thesis
    unfolding eq using assms unfolding tracked_def
    by (auto simp: less_Suc_eq image_Un)
qed

lemma tracked_serv: "tracked s \<Longrightarrow> tracked (snd (serv data filename lifetime s))"
proof -
  assume a: "tracked s"
  show ?thesis
  proof (cases "List.find (\<lambda>(f, t). f = filename) (timeouts s)")
    case None
    then have r: "resetFile filename lifetime s = (False, s)" by (simp add: resetFile_def)
    have "filename \<notin> fst ` set (timeouts s)" using None by (simp add: find_table_None)
    then have "tracked (snd (initFile filename data lifetime s))" by (rule tracked_initFile [OF a])
    then show ?thesis by (simp add: serv_def r case_prod_unfold)
  next
    case (Some p)
    then have "fst (resetFile filename lifetime s)"
      by (simp add: resetFile_def split: prod.splits)
    then show ?thesis using tracked_resetFile [OF a, of filename lifetime]
      by (simp add: serv_def case_prod_unfold)
  qed
qed

lemma delete_state:
  "snd (delete filename s) =
     (let s2 = s\<lparr>timers := (case List.find (\<lambda>(f, t). f = filename) (timeouts s) of
                               Some (f, t) \<Rightarrow> filter (\<lambda>x. tid x \<noteq> t) (timers s)
                             | None \<Rightarrow> timers s),
                 timeouts := filter (\<lambda>(f, t). f \<noteq> filename) (timeouts s)\<rparr>
      in case unlink_entry (denied s) filename (disk s) of
           None \<Rightarrow> s2 | Some d \<Rightarrow> s2\<lparr>disk := d\<rparr>)"
  by (simp add: delete_def unlinkSync_def clearTimeout_def Let_def
      split: option.splits prod.splits)

lemma tracked_disk_irrelevant: "tracked (s\<lparr>disk := d\<rparr>) = tracked s"
  by (simp add: tracked_def)

lemma tracked_timers_of_file:
  assumes "tracked s" "t \<in> set (timers s)"
  shows "(on_fire t, tid t) \<in> set (timeouts s)"
  using assms unfolding tracked_def by blast

lemma tracked_delete:
  assumes "tracked s"
  shows "tracked (snd (delete filename s))"
proof -
  let ?tab = "filter (\<lambda>(f, t). f \<noteq> filename) (timeouts s)"
  have d1: "distinct (map fst (timeouts s))" and d2: "distinct (map tid (timers s))"
    and b: "\<forall>t \<in> set (timers s). tid t < next_timer s"
    and img: "(\<lambda>t. (on_fire t, tid t)) ` set (timers s) = set (timeouts s)"
    using assms by (simp_all add: tracked_def)
  have core: "tracked (s\<lparr>timers := (case List.find (\<lambda>(f, t). f = filename) (timeouts s) of
                               Some (f, t) \<Rightarrow> filter (\<lambda>x. tid x \<noteq> t) (timers s)
                             | None \<Rightarrow> timers s), timeouts := ?tab\<rparr>)"
  proof (cases "List.find (\<lambda>(f, t). f = filename) (timeouts s)")
    case None
    then have no: "filename \<notin> fst ` set (timeouts s)" by (simp add: find_table_None)
    then have "?tab = timeouts s" by (auto intro!: filter_True simp: rev_image_eqI)
    then show ?thesis using None assms by (simp add: tracked_def)
  next
    case (Some p)
    obtain g h where p: "p = (g, h)" by (cases p)
    have mem: "(filename, h) \<in> set (timeouts s)" using Some p find_table_Some by fastforce
    have only: "\<And>h'. (filename, h') \<in> set (timeouts s) \<Longrightarrow> h' = h"
      using d1 mem by (meson eq_key_imp_eq_value)
    have "set ?tab = set (timeouts s) - {(filename, h)}"
      using only by auto
    then have "(\<lambda>t. (on_fire t, tid t)) ` set (filter (\<lambda>x. tid x \<noteq> h) (timers s)) = set ?tab"
      using tracked_image_without [OF assms mem] by simp
    moreover have "distinct (map fst ?tab)" using d1 by (simp add: distinct_map_filter)
    moreover have "distinct (map tid (filter (\<lambda>x. tid x \<noteq> h) (timers s)))"
      using d2 by (simp add: distinct_map_filter)
    ultimately show ?thesis using Some p b by (simp add: tracked_def)
  qed
  show ?thesis
    unfolding delete_state Let_def using core
    by (simp add: tracked_disk_irrelevant split: option.splits)
qed

lemma find_timer_Some:
  "List.find (\<lambda>t. tid t = h) ts = Some t \<Longrightarrow> t \<in> set ts \<and> tid t = h"
  by (induction ts) (auto split: if_splits)

lemma tracked_expire:
  assumes "tracked s"
  shows "tracked (expire h s)"
proof (cases "List.find (\<lambda>t. tid t = h) (timers s)")
  case None
  then show ?thesis using assms by (simp add: expire_def)
next
  case (Some t)
  then have t: "t \<in> set (timers s)" "tid t = h" using find_timer_Some by fastforce+
  let ?f = "on_fire t"
  have mem: "(?f, h) \<in> set (timeouts s)" using tracked_timers_of_file [OF assms t(1)] t(2) by simp
  have d1: "distinct (map fst (timeouts s))" using assms by (simp add: tracked_def)
  obtain p where fnd: "List.find (\<lambda>(f, t). f = ?f) (timeouts s) = Some p"
    using mem by (cases "List.find (\<lambda>(f, t). f = ?f) (timeouts s)") (auto simp: find_table_None rev_image_eqI)
  obtain g h' where p: "p = (g, h')" by (cases p)
  have "(?f, h') \<in> set (timeouts s)" using fnd p find_table_Some by fastforce
  then have h': "h' = h" using d1 mem by (meson eq_key_imp_eq_value)
  let ?s0 = "s\<lparr>timers := filter (\<lambda>t. tid t \<noteq> h) (timers s)\<rparr>"
  have "snd (delete ?f ?s0) = snd (delete ?f s)"
    unfolding delete_state using fnd p h' by simp
  then show ?thesis using Some tracked_delete [OF assms, of ?f] by (simp add: expire_def)
qed

lemma tracked_step: "tracked s \<Longrightarrow> tracked (fs_step opn s)"
  by (cases opn) (simp_all add: tracked_serv tracked_delete tracked_expire)

lemma tracked_run: "tracked s \<Longrightarrow> tracked (fs_run ops s)"
  unfolding fs_run_def by (induction ops arbitrary: s) (simp_all add: tracked_step)

lemma tracked_one_live:
  assumes "tracked s"
  shows "length (live_timers filename s) \<le> 1"
proof -
  have d1: "distinct (map fst (timeouts s))" and d2: "distinct (map tid (timers s))"
    using assms by (simp_all add: tracked_def)
  have same: "\<And>t1 t2. t1 \<in> set (timers s) \<Longrightarrow> t2 \<in> set (timers s) \<Longrightarrow>
      on_fire t1 = filename \<Longrightarrow> on_fire t2 = filename \<Longrightarrow> t1 = t2"
  proof -
    fix t1 t2 assume a: "t1 \<in> set (timers s)" "t2 \<in> set (timers s)"
      "on_fire t1 = filename" "on_fire t2 = filename"
    have "(filename, tid t1) \<in> set (timeouts s)" "(filename, tid t2) \<in> set (timeouts s)"
      using tracked_timers_of_file [OF assms] a by fastforce+
    then have "tid t1 = tid t2" using d1 by (meson eq_key_imp_eq_value)
    then show "t1 = t2" using d2 a(1,2) by (metis distinct_map inj_onD)
  qed
  have dl: "distinct (live_timers filename s)"
    using d2 by (simp add: live_timers_def distinct_map)
  have "set (live_timers filename s) \<subseteq> {t. t \<in> set (timers s) \<and> on_fire t = filename}"
    by (auto simp: live_timers_def)
  show ?thesis
  proof (cases "live_timers filename s")
    case Nil
    then show ?thesis by simp
  next
    case (Cons t ts)
    have "ts = []"
    proof (cases ts)
      case Nil
      then show ?thesis .
    next
      case (Cons t' ts')
      have "t \<in> set (live_timers filename s)" "t' \<in> set (live_timers filename s)"
        using \<open>live_timers filename s = t # ts\<close> Cons by simp_all
      then have "t = t'" using same by (auto simp: live_timers_def)
      then show ?thesis using dl \<open>live_timers filename s = t # ts\<close> Cons by simp
    qed
    then show ?thesis using Cons by simp
  qed
qed

text \<open>In a tracked state \<open>delete\<close> leaves no pending timer for the file name either.\<close>

lemma delete_clears_live_timers:
  assumes "tracked s"
  shows "live_timers filename (snd (delete filename s)) = []"
proof -
  have t: "tracked (snd (delete filename s))" by (rule tracked_delete [OF assms])
  have "filename \<notin> fst ` set (timeouts (snd (delete filename s)))"
    by (auto simp: delete_table)
  then have "\<And>x. x \<in> set (timers (snd (delete filename s))) \<Longrightarrow> on_fire x \<noteq> filename"
    using tracked_timers_of_file [OF t] by (metis fst_conv image_eqI)
  then show ?thesis by (simp add: live_timers_def filter_empty_conv)
qed

lemma live_nonempty_tracked:
  assumes "tracked s" "live_timers filename s \<noteq> []"
  shows "\<exists>h. List.find (\<lambda>(f, t). f = filename) (timeouts s) = Some (filename, h)
           \<and> (filename, h) \<in> set (timeouts s)"
proof -
  obtain t where "t \<in> set (timers s)" "on_fire t = filename"
    using assms(2) by (auto simp: live_timers_def filter_empty_conv)
  then have "(filename, tid t) \<in> set (timeouts s)"
    using tracked_timers_of_file [OF assms(1)] by fastforce
  then obtain p where p: "List.find (\<lambda>(f, t). f = filename) (timeouts s) = Some p"
    by (cases "List.find (\<lambda>(f, t). f = filename) (timeouts s)") (auto simp: find_table_None rev_image_eqI)
  then show ?thesis using find_table_Some [of filename "timeouts s" "fst p" "snd p"] by (cases p) auto
qed

lemma serv_existing:
  assumes "tracked s" "live_timers filename s \<noteq> []"
  shows "fst (serv data filename lifetime s) = ''/files/'' @ filename
       \<and> disk (snd (serv data filename lifetime s)) = disk s
       \<and> map fst (timeouts (snd (serv data filename lifetime s))) = map fst (timeouts s)
       \<and> live_timers filename (snd (serv data filename lifetime s))
           = [\<lparr>tid = next_timer s, on_fire = filename, delay = armed (lifetime * 1000)\<rparr>]"
proof -
  obtain h where h: "List.find (\<lambda>(f, t). f = filename) (timeouts s) = Some (filename, h)"
      "(filename, h) \<in> set (timeouts s)"
    using live_nonempty_tracked [OF assms] by blast
  let ?new = "\<lparr>tid = next_timer s, on_fire = filename, delay = armed (lifetime * 1000)\<rparr>"
  have eq: "serv data filename lifetime s = (''/files/'' @ filename,
      s\<lparr>timers := filter (\<lambda>t. tid t \<noteq> h) (timers s) @ [?new],
        next_timer := Suc (next_timer s),
        timeouts := assign_timeout filename (next_timer s) (timeouts s)\<rparr>)"
    using h(1) by (simp add: serv_def resetFile_def setTimeout_def clearTimeout_def)
  have d1: "distinct (map fst (timeouts s))" using assms(1) by (simp add: tracked_def)
  have "\<And>t. t \<in> set (timers s) \<Longrightarrow> on_fire t = filename \<Longrightarrow> tid t = h"
  proof -
    fix t assume "t \<in> set (timers s)" "on_fire t = filename"
    then have "(filename, tid t) \<in> set (timeouts s)"
      using tracked_timers_of_file [OF assms(1)] by fastforce
    then show "tid t = h" using d1 h(2) by (meson eq_key_imp_eq_value)
  qed
  then have "filter (\<lambda>t. on_fire t = filename) (filter (\<lambda>t. tid t \<noteq> h) (timers s)) = []"
    by (auto simp: filter_empty_conv)
  then show ?thesis unfolding eq by (simp add: live_timers_def map_fst_assign)
qed

lemma fresh_tracked: "fresh s \<Longrightarrow> tracked s"
  by (simp add: fresh_def tracked_def)

text \<open>
  C6, as amended. In every state a freshly constructed server reaches by calls of
  \<open>serv\<close> and \<open>delete\<close> and by timers expiring, at most one pending timer belongs to
  any file name and the table holds each file name once. When a pending timer for
  \<open>filename\<close> exists, \<open>serv(data, filename, lifetime)\<close> returns \<open>/files/<filename>\<close>,
  leaves the folder as it was, keeps the table's file names as they were, and afterwards
  the one pending timer for \<open>filename\<close> is a new one, armed with \<open>lifetime * 1000\<close>
  milliseconds when that lies between 1 and 2147483647, and with 1 millisecond
  otherwise.
\<close>

theorem one_timer_per_file:
  assumes "fresh s0"
  shows "length (live_timers f (fs_run ops s0)) \<le> 1
       \<and> distinct (map fst (timeouts (fs_run ops s0)))
       \<and> (live_timers filename (fs_run ops s0) \<noteq> [] \<longrightarrow>
            fst (serv data filename lifetime (fs_run ops s0)) = ''/files/'' @ filename
          \<and> disk (snd (serv data filename lifetime (fs_run ops s0))) = disk (fs_run ops s0)
          \<and> map fst (timeouts (snd (serv data filename lifetime (fs_run ops s0))))
              = map fst (timeouts (fs_run ops s0))
          \<and> live_timers filename (snd (serv data filename lifetime (fs_run ops s0)))
              = [\<lparr>tid = next_timer (fs_run ops s0), on_fire = filename,
                  delay = (if 1 \<le> lifetime * 1000 \<and> lifetime * 1000 \<le> 2147483647
                           then lifetime * 1000 else 1)\<rparr>])"
proof -
  have t: "tracked (fs_run ops s0)" using assms by (intro tracked_run fresh_tracked)
  then have "distinct (map fst (timeouts (fs_run ops s0)))" by (simp add: tracked_def)
  moreover have "armed (lifetime * 1000)
      = (if 1 \<le> lifetime * 1000 \<and> lifetime * 1000 \<le> 2147483647 then lifetime * 1000 else 1)"
    by (simp add: armed_def TIMEOUT_MAX_def)
  ultimately show ?thesis
    using tracked_one_live [OF t, of f] serv_existing [OF t, of filename data lifetime] by simp
qed

lemma srv1: "fs_run [Serv [137, 80, 78] ''a.png'' 1] srv0 =
   \<lparr>folder = ''/data/.cache/files'', timeouts = [(''a.png'', 0)],
    disk = [(''a.png'', RegularFile [137, 80, 78])], denied = (\<lambda>n. False),
    timers = [\<lparr>tid = 0, on_fire = ''a.png'', delay = 1000\<rparr>], next_timer = 1\<rparr>"
  by (simp add: fs_run_def srv0_def serv_def resetFile_def initFile_def writeFileSync_def
      write_entry_def setTimeout_def armed_def TIMEOUT_MAX_def)

text \<open>
  Re-served with a lifetime of 2147484 seconds, the timer of \<open>a.png\<close> is armed with
  1 millisecond, not with the new lifetime.
\<close>

theorem reserve_resets_to_lifetime_counterexample:
  "live_timers ''a.png''
     (snd (serv [9] ''a.png'' 2147484 (fs_run [Serv [137, 80, 78] ''a.png'' 1] srv0)))
   = [\<lparr>tid = 1, on_fire = ''a.png'', delay = 1\<rparr>]"
  by (simp add: srv1 serv_def resetFile_def setTimeout_def clearTimeout_def live_timers_def
      armed_def TIMEOUT_MAX_def)

theorem one_timer_per_file_witness:
  "fresh srv0
   \<and> live_timers ''a.png'' (fs_run [Serv [137, 80, 78] ''a.png'' 1] srv0) \<noteq> []
   \<and> fst (serv [9] ''a.png'' 5 (fs_run [Serv [137, 80, 78] ''a.png'' 1] srv0)) = ''/files/a.png''
   \<and> disk (snd (serv [9] ''a.png'' 5 (fs_run [Serv [137, 80, 78] ''a.png'' 1] srv0)))
        = [(''a.png'', RegularFile [137, 80, 78])]
   \<and> live_timers ''a.png'' (snd (serv [9] ''a.png'' 5 (fs_run [Serv [137, 80, 78] ''a.png'' 1] srv0)))
        = [\<lparr>tid = 1, on_fire = ''a.png'', delay = 5000\<rparr>]"
proof -
  have f: "fresh srv0" by (simp add: fresh_def srv0_def)
  have l: "live_timers ''a.png'' (fs_run [Serv [137, 80, 78] ''a.png'' 1] srv0) \<noteq> []"
    by (simp add: srv1 live_timers_def)
  show ?thesis
    using f l one_timer_per_file [OF f, of "''a.png''" "[Serv [137, 80, 78] ''a.png'' 1]" "''a.png''" "[9]" 5]
    by (simp add: srv1)
qed

lemma tried_names:
  "distinct (map fst d) \<Longrightarrow>
   filter (\<lambda>f. existsSync (map_of d f)) (map fst d) = map fst (filter (\<lambda>e. existsSync (Some (snd e))) d)"
proof -
  assume dd: "distinct (map fst d)"
  have "\<And>e. e \<in> set d \<Longrightarrow> map_of d (fst e) = Some (snd e)"
    using dd by (metis map_of_is_SomeI prod.collapse)
  then show ?thesis by (simp add: filter_map comp_def cong: filter_cong)
qed

lemma empty_folder_eq:
  assumes "distinct (map fst d)"
  shows "empty_folder den path (Folder d) =
     Inr (filter (\<lambda>e. \<not> purgeable den e) d, map fst (filter (\<lambda>e. existsSync (Some (snd e))) d))"
proof -
  have "filter (\<lambda>e. \<not> (fst e \<in> set (map fst d) \<and> purgeable den e)) d = filter (\<lambda>e. \<not> purgeable den e) d"
    by (auto intro!: filter_cong)
  then show ?thesis
    using purge_eq [OF assms assms, of den "[]"] tried_names [OF assms]
    by (simp add: empty_folder_def)
qed

text \<open>
  C10, as amended. \<open>statSync\<close> never describes a symbolic link, so the test
  \<open>!stat.isSymbolicLink()\<close> never holds an entry back. With \<open>USER_DATA\<close> set and the
  folder a directory, construction succeeds whatever \<open>unlinkSync\<close> throws; it calls
  \<open>unlinkSync\<close> on exactly the entries that exist for \<open>existsSync\<close>, in directory order,
  and leaves behind exactly those that do not exist for it, are directories or are denied.
  A symbolic link is among the entries tried if and only if its target exists: a dangling
  link is skipped by the \<open>existsSync\<close> guard and stays in the folder.
\<close>

theorem purge_skips_dangling_links:
  assumes "u \<noteq> []" "distinct (map fst d)"
  shows "(\<forall>n st. statSync n = Some st \<longrightarrow> \<not> isSymbolicLink st)
       \<and> new_FileServer (Some u) sub mk den (Folder d) =
           Inr (\<lparr>folder = u @ ''/.cache/'' @ sub, timeouts = [],
                 disk = filter (\<lambda>e. \<not> purgeable den e) d, denied = den,
                 timers = [], next_timer = 0\<rparr>,
                map fst (filter (\<lambda>e. existsSync (Some (snd e))) d))
       \<and> (\<forall>f t. (f, SymbolicLink t) \<in> set d \<longrightarrow>
            (f \<in> set (map fst (filter (\<lambda>e. existsSync (Some (snd e))) d)) \<longleftrightarrow> t \<noteq> None))"
proof -
  have a: "\<forall>n st. statSync n = Some st \<longrightarrow> \<not> isSymbolicLink st"
    using stat_never_symlink by (auto simp: isSymbolicLink_def)
  have b: "new_FileServer (Some u) sub mk den (Folder d) =
           Inr (\<lparr>folder = u @ ''/.cache/'' @ sub, timeouts = [],
                 disk = filter (\<lambda>e. \<not> purgeable den e) d, denied = den,
                 timers = [], next_timer = 0\<rparr>,
                map fst (filter (\<lambda>e. existsSync (Some (snd e))) d))"
    using assms(1) by (simp add: new_FileServer_def setup_folder_def empty_folder_eq [OF assms(2)])
  have c: "\<forall>f t. (f, SymbolicLink t) \<in> set d \<longrightarrow>
            (f \<in> set (map fst (filter (\<lambda>e. existsSync (Some (snd e))) d)) \<longleftrightarrow> t \<noteq> None)"
  proof (intro allI impI)
    fix f t assume m: "(f, SymbolicLink t) \<in> set d"
    have only: "\<And>n. (f, n) \<in> set d \<Longrightarrow> n = SymbolicLink t"
      using assms(2) m by (meson eq_key_imp_eq_value)
    have ex: "existsSync (Some (SymbolicLink t)) \<longleftrightarrow> t \<noteq> None"
    proof (cases t)
      case None
      then show ?thesis by (simp add: existsSync_def)
    next
      case (Some a)
      then show ?thesis by (cases a) (simp_all add: existsSync_def)
    qed
    show "f \<in> set (map fst (filter (\<lambda>e. existsSync (Some (snd e))) d)) \<longleftrightarrow> t \<noteq> None"
    proof
      assume "f \<in> set (map fst (filter (\<lambda>e. existsSync (Some (snd e))) d))"
      then obtain n where n: "(f, n) \<in> set d" "existsSync (Some n)" by auto
      then have "n = SymbolicLink t" using only by simp
      then show "t \<noteq> None" using n(2) ex by simp
    next
      assume "t \<noteq> None"
      then have "existsSync (Some (snd (f, SymbolicLink t)))" using ex by simp
      then have "(f, SymbolicLink t) \<in> set (filter (\<lambda>e. existsSync (Some (snd e))) d)"
        using m by simp
      then show "f \<in> set (map fst (filter (\<lambda>e. existsSync (Some (snd e))) d))"
        by (metis fst_conv image_eqI set_map)
    qed
  qed
  show ?thesis using a b c by blast
qed

theorem purge_every_entry_counterexample:
  "new_FileServer (Some ''/data'') ''files'' True (\<lambda>n. False) (Folder [(''stale.png'', SymbolicLink None)])
     = Inr (\<lparr>folder = ''/data/.cache/files'', timeouts = [],
             disk = [(''stale.png'', SymbolicLink None)], denied = (\<lambda>n. False),
             timers = [], next_timer = 0\<rparr>, [])"
  by (simp add: new_FileServer_def setup_folder_def empty_folder_def existsSync_def)

theorem purge_skips_dangling_links_witness:
  "''/data'' \<noteq> [] \<and> distinct (map fst [(''old.png'', RegularFile [255]), (''live.lnk'', SymbolicLink (Some TargetFile)),
       (''dead.lnk'', SymbolicLink None), (''sub'', Directory), (''busy.png'', RegularFile [])])
   \<and> new_FileServer (Some ''/data'') ''files'' True (\<lambda>n. n = ''busy.png'')
       (Folder [(''old.png'', RegularFile [255]), (''live.lnk'', SymbolicLink (Some TargetFile)),
       (''dead.lnk'', SymbolicLink None), (''sub'', Directory), (''busy.png'', RegularFile [])])
     = Inr (\<lparr>folder = ''/data/.cache/files'', timeouts = [],
             disk = [(''dead.lnk'', SymbolicLink None), (''sub'', Directory), (''busy.png'', RegularFile [])],
             denied = (\<lambda>n. n = ''busy.png''), timers = [], next_timer = 0\<rparr>,
            [''old.png'', ''live.lnk'', ''sub'', ''busy.png''])"
  using purge_skips_dangling_links [of "''/data''"
     "[(''old.png'', RegularFile [255]), (''live.lnk'', SymbolicLink (Some TargetFile)),
       (''dead.lnk'', SymbolicLink None), (''sub'', Directory), (''busy.png'', RegularFile [])]"
     "''files''" True "\<lambda>n. n = ''busy.png''"]
  by (simp add: purgeable_def existsSync_def)

section \<open>Properties of the rate limiter\<close>

lemma returnFetch_concurrency:
  "concurrency (snd (returnFetch data filename w)) = decrement_floor (concurrency w)"
  by (simp add: returnFetch_def Let_def getInstance_def split: jsval.splits option.splits prod.splits)

lemma returnFetch_trace: "trace (snd (returnFetch data filename w)) = trace w"
  by (simp add: returnFetch_def Let_def getInstance_def split: jsval.splits option.splits prod.splits)


lemma returnFetch_plain:
  "(\<And>b. data \<noteq> JBuffer b) \<Longrightarrow>
   returnFetch data filename w = (Inr data, w\<lparr>concurrency := decrement_floor (concurrency w)\<rparr>)"
  by (cases data) (auto simp: returnFetch_def)

lemma wait_concurrency: "concurrency (wait m w) = concurrency w"
  by (simp add: wait_def)

text \<open>The counter after each operation, by the path it left on.\<close>

lemma fetch_counter:
  "\<exists>x. may_exit Fetch x
     \<and> concurrency (snd (fetch e m config type w)) = exit_counter x (enter (concurrency w))"
proof -
  let ?c = "concurrency (snd (fetch e m config type w))"
  have "?c = decrement_floor (enter (concurrency w)) \<or> ?c = decrement (enter (concurrency w))
        \<or> ?c = enter (concurrency w)"
    by (simp add: fetch_def Let_def returnFetch_concurrency wait_concurrency
        split: prod.splits sum.splits option.splits)
  then show ?thesis
    by (metis exit_counter.simps may_exit.simps(1))
qed

lemma saveToCache_other:
  "concurrency (saveToCache e filename b w) = concurrency w"
  "trace (saveToCache e filename b w) = trace w"
  "file_server (saveToCache e filename b w) = file_server w"
  by (simp_all add: saveToCache_def split: option.splits)

lemma image_result_counter:
  "concurrency (snd (image_result e m returnType filename buffer w)) =
     (case buffer of
        None \<Rightarrow> decrement_floor (concurrency w)
      | Some b \<Rightarrow>
          (case getFileMime e b of
             Inl thrown \<Rightarrow> concurrency w
           | Inr mime \<Rightarrow>
               if mime \<noteq> [] \<and> startsWith mime ''image/''
               then decrement_floor (concurrency w) else concurrency w))"
  by (simp add: image_result_def Let_def returnFetch_concurrency saveToCache_other
      split: option.splits sum.splits)

lemma downloadImage_counter:
  "\<exists>x. may_exit DownloadImage x
     \<and> concurrency (snd (downloadImage e m u returnType ref dep config w))
         = exit_counter x (enter (concurrency w))"
proof -
  let ?c = "concurrency (snd (downloadImage e m u returnType ref dep config w))"
  have "?c = decrement_floor (enter (concurrency w)) \<or> ?c = enter (concurrency w)"
    by (simp add: downloadImage_def Let_def returnFetch_concurrency wait_concurrency
        image_result_counter
        split: prod.splits sum.splits option.splits jsval.splits)
  then show ?thesis
    by (metis exit_counter.simps(1,3) may_exit.simps(2) exit_path.distinct)
qed

lemma post_counter:
  "concurrency (snd (post e m u data type config w)) = exit_counter NoDecrement (enter (concurrency w))"
  by (simp add: post_def Let_def wait_concurrency split: sum.splits)

lemma in_flight_bound:
  assumes "limiter_step a s = Some s'" "int (length (in_flight s)) \<le> counter s"
  shows "int (length (in_flight s')) \<le> counter s'"
proof (cases a)
  case (Begin opn)
  then show ?thesis using assms by (auto simp: enter_def)
next
  case (Complete opn x)
  then have mem: "opn \<in> set (in_flight s)"
    and s': "s' = \<lparr>counter = exit_counter x (counter s), in_flight = remove1 opn (in_flight s)\<rparr>"
    using assms(1) by (auto split: if_splits)
  have "length (in_flight s) > 0" using mem by (cases "in_flight s") auto
  then have pos: "1 \<le> counter s" using assms(2) by linarith
  have "length (remove1 opn (in_flight s)) = length (in_flight s) - 1"
    using mem by (simp add: length_remove1)
  then have len: "int (length (remove1 opn (in_flight s))) = int (length (in_flight s)) - 1"
    using \<open>length (in_flight s) > 0\<close> by linarith
  have "counter s - 1 \<le> exit_counter x (counter s)"
    using pos by (cases x) (simp_all add: decrement_floor_def decrement_def Let_def)
  then show ?thesis using s' len assms(2) by simp
qed

lemma limiter_run_bound:
  "limiter_run acts s = Some s' \<Longrightarrow> int (length (in_flight s)) \<le> counter s \<Longrightarrow>
   int (length (in_flight s')) \<le> counter s'"
proof (induction acts arbitrary: s)
  case Nil
  then show ?case by simp
next
  case (Cons a acts)
  then obtain s1 where s1: "limiter_step a s = Some s1" "limiter_run acts s1 = Some s'"
    by (auto split: option.splits)
  show ?case using Cons.IH [OF s1(2) in_flight_bound [OF s1(1) Cons.prems(2)]] .
qed

lemma fetch_waits:
  "\<exists>rest. trace (snd (fetch e m config type w))
     = trace w @ Waited (waitTime m * (concurrency w + 1)) # rest"
  by (simp add: fetch_def Let_def wait_def wait_ms_def enter_def returnFetch_trace
      split: prod.splits sum.splits option.splits)

lemma post_waits:
  "trace (snd (post e m u data type config w))
     = trace w @ [Waited (waitTime m * (concurrency w + 1)), AxiosCall u]"
  by (simp add: post_def Let_def wait_def wait_ms_def enter_def split: sum.splits)

text \<open>
  C5, as amended. From a fresh instance (counter zero, nothing in flight), after any
  interleaving of calls of \<open>fetch\<close>, \<open>post\<close> and \<open>downloadImage\<close> entering and completing
  on any of their exit paths, the counter is not negative. The delay \<open>#wait\<close> hands to
  the timer is \<open>waitTime\<close> times the counter at that moment (for \<open>fetch\<close> and \<open>post\<close>, the
  counter just incremented); for an instance whose \<open>waitTime\<close> is not negative, of two
  waits the one at the greater counter is not the shorter.
\<close>

theorem counter_never_negative:
  assumes "limiter_run acts fresh_limiter = Some s"
  shows "0 \<le> counter s
       \<and> trace (wait m w) = trace w @ [Waited (waitTime m * concurrency w)]
       \<and> (\<exists>rest. trace (snd (fetch e m config type w))
             = trace w @ Waited (waitTime m * (concurrency w + 1)) # rest)
       \<and> (\<exists>rest. trace (snd (post e m u data method pconfig w))
             = trace w @ Waited (waitTime m * (concurrency w + 1)) # rest)
       \<and> (0 \<le> waitTime m \<and> concurrency w \<le> concurrency w' \<longrightarrow>
            (\<exists>d d'. trace (wait m w) = trace w @ [Waited d]
                  \<and> trace (wait m w') = trace w' @ [Waited d'] \<and> d \<le> d'))"
proof -
  have "int (length (in_flight s)) \<le> counter s"
    using limiter_run_bound [OF assms(1)] by (simp add: fresh_limiter_def)
  then have nonneg: "0 \<le> counter s" by linarith
  have w: "\<And>v. trace (wait m v) = trace v @ [Waited (waitTime m * concurrency v)]"
    by (simp add: wait_def wait_ms_def)
  have mono: "0 \<le> waitTime m \<and> concurrency w \<le> concurrency w' \<longrightarrow>
            (\<exists>d d'. trace (wait m w) = trace w @ [Waited d]
                  \<and> trace (wait m w') = trace w' @ [Waited d'] \<and> d \<le> d')"
    by (simp add: w mult_left_mono)
  have p: "\<exists>rest. trace (snd (post e m u data method pconfig w))
             = trace w @ Waited (waitTime m * (concurrency w + 1)) # rest"
    by (simp add: post_waits)
  show ?thesis using nonneg w [of w] fetch_waits [of e m config type w] p mono by blast
qed

text \<open>
  The constructor keeps a negative \<open>waitTime\<close>: at counter 1 the instance waits -5, at
  counter 2 it waits -10.
\<close>

theorem wait_grows_with_counter_counterexample:
  "waitTime (sample_mirror\<lparr>waitTime := init_waitTime (Some (- 5))\<rparr>) = - 5
   \<and> trace (wait (sample_mirror\<lparr>waitTime := init_waitTime (Some (- 5))\<rparr>)
              (sample_world\<lparr>concurrency := 1\<rparr>)) = [Waited (- 5)]
   \<and> trace (wait (sample_mirror\<lparr>waitTime := init_waitTime (Some (- 5))\<rparr>)
              (sample_world\<lparr>concurrency := 2\<rparr>)) = [Waited (- 10)]
   \<and> \<not> ((- 5 :: int) \<le> - 10)"
  by (simp add: init_waitTime_def wait_def wait_ms_def sample_world_def)

theorem counter_never_negative_witness:
  "limiter_run [Begin Fetch, Begin Post, Complete Fetch PlainDecrement, Begin DownloadImage,
                Complete DownloadImage ThroughReturnFetch, Complete Post NoDecrement] fresh_limiter
     = Some \<lparr>counter = 1, in_flight = []\<rparr>
   \<and> 0 \<le> counter \<lparr>counter = 1, in_flight = []\<rparr>
   \<and> 0 \<le> waitTime sample_mirror
   \<and> concurrency (sample_world\<lparr>concurrency := 1\<rparr>) \<le> concurrency (sample_world\<lparr>concurrency := 3\<rparr>)
   \<and> trace (wait sample_mirror (sample_world\<lparr>concurrency := 1\<rparr>)) = [Waited 200]
   \<and> trace (wait sample_mirror (sample_world\<lparr>concurrency := 3\<rparr>)) = [Waited 600]"
proof -
  have r: "limiter_run [Begin Fetch, Begin Post, Complete Fetch PlainDecrement, Begin DownloadImage,
                Complete DownloadImage ThroughReturnFetch, Complete Post NoDecrement] fresh_limiter
     = Some \<lparr>counter = 1, in_flight = []\<rparr>"
    by (simp add: fresh_limiter_def enter_def decrement_def decrement_floor_def)
  have wt: "waitTime sample_mirror = 200"
    by (simp add: sample_mirror_def init_waitTime_def)
  note t = counter_never_negative [OF r, where m = sample_mirror
      and w = "sample_world\<lparr>concurrency := 1\<rparr>" and w' = "sample_world\<lparr>concurrency := 3\<rparr>"]
  have c: "0 \<le> counter \<lparr>counter = 1, in_flight = []\<rparr>" using t by blast
  have "trace (wait sample_mirror (sample_world\<lparr>concurrency := 1\<rparr>))
      = trace (sample_world\<lparr>concurrency := 1\<rparr>)
        @ [Waited (waitTime sample_mirror * concurrency (sample_world\<lparr>concurrency := 1\<rparr>))]"
    using t by blast
  then have w1: "trace (wait sample_mirror (sample_world\<lparr>concurrency := 1\<rparr>)) = [Waited 200]"
    by (simp add: wt sample_world_def)
  have w3: "trace (wait sample_mirror (sample_world\<lparr>concurrency := 3\<rparr>)) = [Waited 600]"
    by (simp add: wait_def wait_ms_def wt sample_world_def)
  show ?thesis using r c w1 w3 wt by simp
qed

section \<open>Properties of the fetch engine and the builders\<close>

text \<open>
  C1 fails on the code: \<open>post\<close> increments the counter on entry and no path of it
  decrements it, so every completed \<open>post\<close> leaves the counter one higher.
\<close>

theorem post_keeps_counter_raised:
  "concurrency (snd (post e m u data type config w)) = concurrency w + 1"
  by (simp add: post_counter enter_def)

lemma downloadImage_not_image_keeps_counter:
  assumes "generateCacheFilename e u dep = Inr (identifier, filename)"
    and "loadFromCache e filename returnType (w\<lparr>concurrency := enter (concurrency w)\<rparr>) = Inr JUndefined"
    and "axios_get_arraybuffer e u (or_else ref (host m)) config = Inr b"
    and "fileTypeFromBuffer e b = Inr (Some ''application/pdf'')"
  shows "downloadImage e m u returnType ref dep config w =
      (Inr JUndefined,
       w\<lparr>concurrency := concurrency w + 1,
          trace := trace w @ [Waited (wait_ms m (concurrency w + 1)), AxiosCall u]\<rparr>)"
  using assms
  by (simp add: downloadImage_def Let_def image_result_def getFileMime_def startsWith_def
      wait_def enter_def)

text \<open>
  C8. When the transport chain yields the same text \<open>body\<close> for a job asked as
  \<open>'json'\<close> and as \<open>'string'\<close>, and \<open>JSON.parse\<close> rejects \<open>body\<close>, then
  \<open>fetch(job, 'json')\<close> throws \<open>invalid_json\<close> and \<open>fetch(job, 'string')\<close> returns
  \<open>body\<close> unchanged.
\<close>

theorem json_and_string_of_text_body:
  assumes "fst (internalFetch e m config ''json'') = Inr (JString body)"
    and "fst (internalFetch e m config ''string'') = Inr (JString body)"
    and "JSON_parse e body = None"
  shows "fst (fetch e m config ''json'' w) = Inl (JError ''invalid_json'')
       \<and> fst (fetch e m config ''string'' w) = Inr (JString body)"
proof -
  obtain c1 where c1: "internalFetch e m config ''json'' = (Inr (JString body), c1)"
    using assms(1) by (cases "internalFetch e m config ''json''") auto
  obtain c2 where c2: "internalFetch e m config ''string'' = (Inr (JString body), c2)"
    using assms(2) by (cases "internalFetch e m config ''string''") auto
  have "fst (fetch e m config ''json'' w) = Inl (JError ''invalid_json'')"
    using assms(3) by (simp add: fetch_def Let_def c1)
  moreover have "fst (fetch e m config ''string'' w) = Inr (JString body)"
    by (simp add: fetch_def Let_def c2 returnFetch_plain)
  ultimately show ?thesis by simp
qed

text \<open>
  C4, as amended. When the cache is enabled and holds bytes under the file name derived
  from the URL, and for a cover the detection of their type does not throw,
  \<open>downloadImage\<close> returns what \<open>#returnFetch\<close> makes of the cached asset (the data URI
  of the bytes for a cover, the served path of the bytes for a page) and the trace of
  transport calls and waits is as before the call: neither transport ran.
\<close>

theorem cache_hit_calls_no_transport:
  assumes "generateCacheFilename e u dep = Inr (identifier, filename)"
    and "USER_DATA e = Some ud" and "cacheEnabled e"
    and "cache_dir w filename = Some b"
    and "returnType \<noteq> ''cover'' \<or> getFileMime e b = Inr mime"
  shows "downloadImage e m u returnType ref dep config w =
           returnFetch
             (if returnType = ''cover''
              then JString (''data:'' @ mime @ '';base64,'' @ base64 e b)
              else JBuffer b)
             (Some filename) (w\<lparr>concurrency := enter (concurrency w)\<rparr>)
       \<and> trace (snd (downloadImage e m u returnType ref dep config w)) = trace w"
proof -
  have l: "loadFromCache e filename returnType (w\<lparr>concurrency := enter (concurrency w)\<rparr>) =
      Inr (if returnType = ''cover''
           then JString (''data:'' @ mime @ '';base64,'' @ base64 e b)
           else JBuffer b)"
    using assms(2,3,4,5) by (auto simp: loadFromCache_def)
  have eq: "downloadImage e m u returnType ref dep config w =
           returnFetch
             (if returnType = ''cover''
              then JString (''data:'' @ mime @ '';base64,'' @ base64 e b)
              else JBuffer b)
             (Some filename) (w\<lparr>concurrency := enter (concurrency w)\<rparr>)"
    using assms(1) by (simp add: downloadImage_def Let_def l)
  show ?thesis unfolding eq by (simp add: returnFetch_trace)
qed

text \<open>
  A cover asset is in the cache, and the dynamic import of the detector fails: the
  \<open>catch\<close> of \<open>#loadFromCache\<close> makes it a miss, and \<open>downloadImage\<close> waits and calls the
  direct transport.
\<close>

theorem cache_holds_asset_counterexample:
  "cache_dir (sample_world\<lparr>cache_dir := [''https!cdn.mirror.com!covers!xyz'' \<mapsto> [104, 105]]\<rparr>)
      ''https!cdn.mirror.com!covers!xyz'' = Some [104, 105]
   \<and> trace (snd (downloadImage
        (sample_env\<lparr>fileTypeFromBuffer := (\<lambda>b. Inl (JError ''Cannot find package file-type''))\<rparr>)
        sample_mirror ''https://cdn.mirror.com/covers/xyz?token=7'' ''cover'' None False None
        (sample_world\<lparr>cache_dir := [''https!cdn.mirror.com!covers!xyz'' \<mapsto> [104, 105]]\<rparr>)))
     = [Waited 200, AxiosCall ''https://cdn.mirror.com/covers/xyz?token=7'']"
  by (simp add: downloadImage_def Let_def generateCacheFilename_def loadFromCache_def
      getFileMime_def image_result_def sample_env_def sample_world_def sample_mirror_def
      init_waitTime_def wait_def wait_ms_def enter_def or_else_def)

lemma prepare_fields:
  "url (prepare m config type) = url config"
  "waitForSelector (prepare m config type) = waitForSelector config"
  by (simp_all add: prepare_def Let_def split: option.splits)

lemma not_found_is_no_marker: "\<not> str_includes ''selector_not_found'' ''no_selector_in_''"
  by (simp add: str_includes_def upt_rec)

text \<open>
  What the chain does on each outcome of the direct attempt. When it throws anything but
  an \<open>Error\<close> whose message contains \<open>no_selector_in_\<close>, or answers with text that lacks
  the required selector, \<open>#internalFetch\<close> hands the prepared job (timeout 10000) to the
  rendering transport and returns its outcome. When the direct response is not text and
  a selector is required, the chain throws \<open>no_selector_in_<typeof data>\<close> and the
  rendering transport is not called. And \<open>fetch\<close> throws \<open>selector_not_found\<close> only when
  a transport produced that very error itself (the rendering transport threw or returned
  it, or it was the data of the direct response): the one raised inside the chain never
  surfaces.
\<close>

lemma chain_outcomes:
  "(((\<exists>thrown. axios_get e (url config) ((prepare m config type)\<lparr>timeout := Some 5000\<rparr>) = Inl thrown
        \<and> \<not> (instanceof_Error thrown \<and> str_includes (message thrown) ''no_selector_in_''))
     \<or> (\<exists>body. axios_get e (url config) ((prepare m config type)\<lparr>timeout := Some 5000\<rparr>) = Inr (JString body)
          \<and> or_else (waitForSelector config) [] \<noteq> []
          \<and> \<not> selector_found e (or_else (waitForSelector config) []) body))
    \<longrightarrow> internalFetch e m config type =
          (crawler e ((prepare m config type)\<lparr>timeout := Some 10000\<rparr>) None False (Some type),
           [AxiosCall (url config), CrawlerCall (url config)]))
   \<and> (\<forall>data. axios_get e (url config) ((prepare m config type)\<lparr>timeout := Some 5000\<rparr>) = Inr data
          \<and> typeof data \<noteq> ''string'' \<and> or_else (waitForSelector config) [] \<noteq> []
        \<longrightarrow> internalFetch e m config type
              = (Inl (JError (''no_selector_in_'' @ typeof data)), [AxiosCall (url config)]))
   \<and> (fst (fetch e m config type w) = Inl (JError ''selector_not_found'')
        \<longrightarrow> crawler e ((prepare m config type)\<lparr>timeout := Some 10000\<rparr>) None False (Some type)
              = Inl (JError ''selector_not_found'')
          \<or> crawler e ((prepare m config type)\<lparr>timeout := Some 10000\<rparr>) None False (Some type)
              = Inr (JError ''selector_not_found'')
          \<or> axios_get e (url config) ((prepare m config type)\<lparr>timeout := Some 5000\<rparr>)
              = Inr (JError ''selector_not_found''))"
proof -
  have marker: "\<And>t. str_includes (''no_selector_in_'' @ t) ''no_selector_in_''"
    by (simp add: str_includes_def upt_rec)
  have part1: "((\<exists>thrown. axios_get e (url config) ((prepare m config type)\<lparr>timeout := Some 5000\<rparr>) = Inl thrown
        \<and> \<not> (instanceof_Error thrown \<and> str_includes (message thrown) ''no_selector_in_''))
     \<or> (\<exists>body. axios_get e (url config) ((prepare m config type)\<lparr>timeout := Some 5000\<rparr>) = Inr (JString body)
          \<and> or_else (waitForSelector config) [] \<noteq> []
          \<and> \<not> selector_found e (or_else (waitForSelector config) []) body))
    \<longrightarrow> internalFetch e m config type =
          (crawler e ((prepare m config type)\<lparr>timeout := Some 10000\<rparr>) None False (Some type),
           [AxiosCall (url config), CrawlerCall (url config)])"
  proof
    let ?direct = "axios_get e (url config) ((prepare m config type)\<lparr>timeout := Some 5000\<rparr>)"
    let ?rendered = "crawler e ((prepare m config type)\<lparr>timeout := Some 10000\<rparr>) None False (Some type)"
    assume "(\<exists>thrown. ?direct = Inl thrown
          \<and> \<not> (instanceof_Error thrown \<and> str_includes (message thrown) ''no_selector_in_''))
       \<or> (\<exists>body. ?direct = Inr (JString body)
            \<and> or_else (waitForSelector config) [] \<noteq> []
            \<and> \<not> selector_found e (or_else (waitForSelector config) []) body)"
    then show "internalFetch e m config type = (?rendered, [AxiosCall (url config), CrawlerCall (url config)])"
    proof
      assume "\<exists>thrown. ?direct = Inl thrown
          \<and> \<not> (instanceof_Error thrown \<and> str_includes (message thrown) ''no_selector_in_'')"
      then obtain thrown where t: "?direct = Inl thrown"
        "\<not> (instanceof_Error thrown \<and> str_includes (message thrown) ''no_selector_in_'')" by blast
      have "direct_attempt e (prepare m config type) = Inl thrown"
        using t(1) by (simp add: direct_attempt_def prepare_fields)
      then show ?thesis using t(2) by (simp add: internalFetch_def Let_def prepare_fields)
    next
      assume "\<exists>body. ?direct = Inr (JString body)
            \<and> or_else (waitForSelector config) [] \<noteq> []
            \<and> \<not> selector_found e (or_else (waitForSelector config) []) body"
      then obtain body where b: "?direct = Inr (JString body)"
        "or_else (waitForSelector config) [] \<noteq> []"
        "\<not> selector_found e (or_else (waitForSelector config) []) body" by blast
      have "direct_attempt e (prepare m config type) = Inl (JError ''selector_not_found'')"
        using b by (simp add: direct_attempt_def prepare_fields)
      then show ?thesis
        using not_found_is_no_marker by (simp add: internalFetch_def Let_def prepare_fields)
    qed
  qed
  have part2: "\<forall>data. axios_get e (url config) ((prepare m config type)\<lparr>timeout := Some 5000\<rparr>) = Inr data
          \<and> typeof data \<noteq> ''string'' \<and> or_else (waitForSelector config) [] \<noteq> []
        \<longrightarrow> internalFetch e m config type
              = (Inl (JError (''no_selector_in_'' @ typeof data)), [AxiosCall (url config)])"
  proof (intro allI impI)
    fix data
    assume a: "axios_get e (url config) ((prepare m config type)\<lparr>timeout := Some 5000\<rparr>) = Inr data
          \<and> typeof data \<noteq> ''string'' \<and> or_else (waitForSelector config) [] \<noteq> []"
    then have "direct_attempt e (prepare m config type) = Inl (JError (''no_selector_in_'' @ typeof data))"
      by (cases data) (simp_all add: direct_attempt_def prepare_fields)
    then show "internalFetch e m config type
              = (Inl (JError (''no_selector_in_'' @ typeof data)), [AxiosCall (url config)])"
      using marker by (simp add: internalFetch_def Let_def prepare_fields)
  qed
  have part3: "fst (fetch e m config type w) = Inl (JError ''selector_not_found'')
        \<longrightarrow> crawler e ((prepare m config type)\<lparr>timeout := Some 10000\<rparr>) None False (Some type)
              = Inl (JError ''selector_not_found'')
          \<or> crawler e ((prepare m config type)\<lparr>timeout := Some 10000\<rparr>) None False (Some type)
              = Inr (JError ''selector_not_found'')
          \<or> axios_get e (url config) ((prepare m config type)\<lparr>timeout := Some 5000\<rparr>)
              = Inr (JError ''selector_not_found'')"
  proof
    let ?direct = "axios_get e (url config) ((prepare m config type)\<lparr>timeout := Some 5000\<rparr>)"
    let ?rendered = "crawler e ((prepare m config type)\<lparr>timeout := Some 10000\<rparr>) None False (Some type)"
    let ?snf = "JError ''selector_not_found''"
    assume f: "fst (fetch e m config type w) = Inl ?snf"
    obtain r called where ic: "internalFetch e m config type = (r, called)"
      by (cases "internalFetch e m config type")
    have r_cases: "r = Inl ?snf \<or> r = Inr ?snf"
    proof (cases r)
      case (Inl thrown)
      then show ?thesis using f ic by (simp add: fetch_def Let_def)
    next
      case (Inr res)
      have nf: "\<And>d fn w'. fst (returnFetch d fn w') \<noteq> Inl ?snf"
        by (simp add: returnFetch_def Let_def getInstance_def split: jsval.splits option.splits prod.splits sum.splits)
      have "instanceof_Error res \<and> res = ?snf"
        using f ic Inr nf
        by (auto simp: fetch_def Let_def split: if_splits option.splits)
      then show ?thesis using Inr by simp
    qed
    show "?rendered = Inl ?snf \<or> ?rendered = Inr ?snf \<or> ?direct = Inr ?snf"
    proof (cases "direct_attempt e (prepare m config type)")
      case (Inr data)
      then have "r = Inr data" using ic by (simp add: internalFetch_def Let_def)
      then have "data = ?snf" using r_cases by auto
      then have "?direct = Inr ?snf"
        using Inr by (auto simp: direct_attempt_def prepare_fields split: sum.splits jsval.splits if_splits)
      then show ?thesis by simp
    next
      case (Inl thrown)
      show ?thesis
      proof (cases "instanceof_Error thrown \<and> str_includes (message thrown) ''no_selector_in_''")
        case True
        then have "r = Inl thrown" using Inl ic by (simp add: internalFetch_def Let_def)
        then have "thrown = ?snf" using r_cases by auto
        then show ?thesis using True not_found_is_no_marker by simp
      next
        case False
        then have "r = ?rendered" using Inl ic by (auto simp: internalFetch_def Let_def)
        then show ?thesis using r_cases by auto
      qed
    qed
  qed
  show ?thesis using part1 part2 part3 by blast
qed

lemma chain_outcomes_example:
  "axios_get sample_env (url sample_job) ((prepare sample_mirror sample_job ''html'')\<lparr>timeout := Some 5000\<rparr>)
      = Inr (JString ''<html>loading</html>'')
   \<and> or_else (waitForSelector sample_job) [] \<noteq> []
   \<and> \<not> selector_found sample_env (or_else (waitForSelector sample_job) []) ''<html>loading</html>''
   \<and> internalFetch sample_env sample_mirror sample_job ''html''
      = (Inr (JString ''<html>rendered</html>''),
         [AxiosCall ''https://www.mirror.com/manga/xyz'', CrawlerCall ''https://www.mirror.com/manga/xyz''])
   \<and> fst (fetch sample_env sample_mirror sample_job ''html'' sample_world)
      = Inr (JCheerio ''<html>rendered</html>'')"
proof -
  have a: "axios_get sample_env (url sample_job) ((prepare sample_mirror sample_job ''html'')\<lparr>timeout := Some 5000\<rparr>)
      = Inr (JString ''<html>loading</html>'')"
    by (simp add: sample_env_def)
  have b: "or_else (waitForSelector sample_job) [] \<noteq> []"
    by (simp add: sample_job_def or_else_def)
  have c: "\<not> selector_found sample_env (or_else (waitForSelector sample_job) []) ''<html>loading</html>''"
    by (simp add: sample_env_def)
  have d: "crawler sample_env ((prepare sample_mirror sample_job ''html'')\<lparr>timeout := Some 10000\<rparr>) None False (Some ''html'')
      = Inr (JString ''<html>rendered</html>'')"
    by (simp add: sample_env_def)
  have u: "url sample_job = ''https://www.mirror.com/manga/xyz''" by (simp add: sample_job_def)
  have i: "internalFetch sample_env sample_mirror sample_job ''html''
      = (Inr (JString ''<html>rendered</html>''),
         [AxiosCall ''https://www.mirror.com/manga/xyz'', CrawlerCall ''https://www.mirror.com/manga/xyz''])"
    using chain_outcomes [of sample_env sample_job sample_mirror "''html''" sample_world]
      a b c d u by simp
  have "fst (fetch sample_env sample_mirror sample_job ''html'' sample_world)
      = Inr (JCheerio ''<html>rendered</html>'')"
    by (simp add: fetch_def Let_def i returnFetch_plain)
  then show ?thesis using a b c i by simp
qed

text \<open>
  Whatever raised it, an \<open>Error\<close> whose message contains \<open>no_selector_in_\<close> is rethrown
  by the \<open>catch\<close>, and the rendering transport is not called.
\<close>

lemma marker_error_is_rethrown:
  assumes "axios_get e (url config) ((prepare m config type)\<lparr>timeout := Some 5000\<rparr>) = Inl thrown"
    and "instanceof_Error thrown" and "str_includes (message thrown) ''no_selector_in_''"
  shows "internalFetch e m config type = (Inl thrown, [AxiosCall (url config)])"
    and "fetch e m config type w =
           (Inl thrown,
            w\<lparr>concurrency := concurrency w + 1,
               trace := trace w @ [Waited (waitTime m * (concurrency w + 1)), AxiosCall (url config)]\<rparr>)"
proof -
  have "direct_attempt e (prepare m config type) = Inl thrown"
    using assms(1) by (simp add: direct_attempt_def prepare_fields)
  then show i: "internalFetch e m config type = (Inl thrown, [AxiosCall (url config)])"
    using assms(2,3) by (simp add: internalFetch_def Let_def prepare_fields)
  show "fetch e m config type w =
           (Inl thrown,
            w\<lparr>concurrency := concurrency w + 1,
               trace := trace w @ [Waited (waitTime m * (concurrency w + 1)), AxiosCall (url config)]\<rparr>)"
    by (simp add: fetch_def Let_def i wait_def wait_ms_def enter_def)
qed

text \<open>
  C2 fails on the code. The direct transport fails on a job for the host
  \<open>no_selector_in_.test\<close> with the resolver's error, whose message names the host; the
  \<open>catch\<close> of \<open>#internalFetch\<close> takes the message for its own \<open>no_selector_in_\<close> error and
  rethrows it. The rendering transport is not called and \<open>fetch\<close> throws the transport's
  error, where the claim (and the comment in the \<open>catch\<close>) has the job reissued.
\<close>

theorem transport_error_with_marker_skips_fallback:
  "internalFetch
     (sample_env\<lparr>axios_get := (\<lambda>u cfg. Inl (JError ''getaddrinfo ENOTFOUND no_selector_in_.test''))\<rparr>)
     sample_mirror (sample_job\<lparr>url := ''http://no_selector_in_.test/''\<rparr>) ''html''
   = (Inl (JError ''getaddrinfo ENOTFOUND no_selector_in_.test''),
      [AxiosCall ''http://no_selector_in_.test/''])
   \<and> fst (fetch
       (sample_env\<lparr>axios_get := (\<lambda>u cfg. Inl (JError ''getaddrinfo ENOTFOUND no_selector_in_.test''))\<rparr>)
       sample_mirror (sample_job\<lparr>url := ''http://no_selector_in_.test/''\<rparr>) ''html'' sample_world)
     = Inl (JError ''getaddrinfo ENOTFOUND no_selector_in_.test'')
   \<and> trace (snd (fetch
       (sample_env\<lparr>axios_get := (\<lambda>u cfg. Inl (JError ''getaddrinfo ENOTFOUND no_selector_in_.test''))\<rparr>)
       sample_mirror (sample_job\<lparr>url := ''http://no_selector_in_.test/''\<rparr>) ''html'' sample_world))
     = [Waited 200, AxiosCall ''http://no_selector_in_.test/'']"
proof -
  let ?e = "sample_env\<lparr>axios_get := (\<lambda>u cfg. Inl (JError ''getaddrinfo ENOTFOUND no_selector_in_.test''))\<rparr>"
  let ?job = "sample_job\<lparr>url := ''http://no_selector_in_.test/''\<rparr>"
  have inc: "str_includes ''getaddrinfo ENOTFOUND no_selector_in_.test'' ''no_selector_in_''"
    by (simp add: str_includes_def upt_rec)
  have i: "internalFetch ?e sample_mirror ?job ''html''
      = (Inl (JError ''getaddrinfo ENOTFOUND no_selector_in_.test''),
         [AxiosCall ''http://no_selector_in_.test/''])"
    using inc by (simp add: internalFetch_def Let_def direct_attempt_def prepare_fields sample_job_def)
  have f: "fetch ?e sample_mirror ?job ''html'' sample_world
      = (Inl (JError ''getaddrinfo ENOTFOUND no_selector_in_.test''),
         sample_world\<lparr>concurrency := 1,
           trace := [Waited 200, AxiosCall ''http://no_selector_in_.test/'']\<rparr>)"
    unfolding fetch_def Let_def i
    by (simp add: wait_def wait_ms_def enter_def sample_world_def
        sample_mirror_def init_waitTime_def)
  show ?thesis using i f by simp
qed

lemma uuidv5_unforced_twice:
  assumes "stable_generator lib" "u \<noteq> []"
  shows "\<exists>i g1 g2. uuidv5 lib m False langs u None g = (Inr i, g1)
                 \<and> uuidv5 lib m False langs u None g' = (Inr i, g2)"
proof (cases "MangaDatabase_get lib (ByUrl (name m) langs u)")
  case None
  let ?req = "\<lparr>uuid_mirror = (name m, version m), uuid_langs = langs, uuid_url = u, uuid_id = None\<rparr>"
  obtain i g1 where a: "uuidgen_generate lib g ?req False = (i, g1)"
    by (cases "uuidgen_generate lib g ?req False")
  obtain j g2 where b: "uuidgen_generate lib g' ?req False = (j, g2)"
    by (cases "uuidgen_generate lib g' ?req False")
  have "fst (uuidgen_generate lib g ?req False) = fst (uuidgen_generate lib g' ?req False)"
    using assms(1) unfolding stable_generator_def by blast
  then have "i = j" using a b by simp
  then show ?thesis using None assms(2) a b by (simp add: uuidv5_def)
next
  case (Some mg)
  then show ?thesis using assms(2) by (simp add: uuidv5_def)
qed

lemma uuidv5_forced_existing:
  assumes "fid \<noteq> []" "MangaDatabase_get lib (ById fid langs) = Some mg"
  shows "uuidv5 lib m True langs u (Some fid) g = (Inr (stored_id mg), g)"
  using assms by (simp add: uuidv5_def or_else_def)

lemma mangaPageBuilder_id:
  "id_of page_id (mangaPageBuilder lib m mg g) =
     id_of (\<lambda>i. i) (if or_else (mg_id mg) [] \<noteq> []
                 then uuidv5 lib m True (mg_langs mg) (mg_url mg) (mg_id mg) g
                 else uuidv5 lib m False (mg_langs mg) (mg_url mg) None g)"
  "snd (mangaPageBuilder lib m mg g) =
     snd (if or_else (mg_id mg) [] \<noteq> []
          then uuidv5 lib m True (mg_langs mg) (mg_url mg) (mg_id mg) g
          else uuidv5 lib m False (mg_langs mg) (mg_url mg) None g)"
  by (simp_all add: mangaPageBuilder_def id_of_def split: prod.splits sum.splits)

lemma chaptersBuilder_id:
  "id_of ch_id (chaptersBuilder lib m c g) =
     id_of (\<lambda>i. i) (if or_else (ca_id c) [] \<noteq> []
                 then uuidv5 lib m True [ca_lang c] (ca_url c) (ca_id c) g
                 else uuidv5 lib m False [ca_lang c] (ca_url c) None g)"
  "snd (chaptersBuilder lib m c g) =
     snd (if or_else (ca_id c) [] \<noteq> []
          then uuidv5 lib m True [ca_lang c] (ca_url c) (ca_id c) g
          else uuidv5 lib m False [ca_lang c] (ca_url c) None g)"
  by (simp_all add: chaptersBuilder_def id_of_def split: prod.splits sum.splits)

lemma searchResultsBuilder_id:
  "id_of result_id (searchResultsBuilder lib m mg g) =
     id_of (\<lambda>i. i) (if or_else (sa_id mg) [] \<noteq> []
                 then uuidv5 lib m True (sa_langs mg) (sa_url mg) (sa_id mg) g
                 else uuidv5 lib m False (sa_langs mg) (sa_url mg) None g)"
  "snd (searchResultsBuilder lib m mg g) =
     snd (if or_else (sa_id mg) [] \<noteq> []
          then uuidv5 lib m True (sa_langs mg) (sa_url mg) (sa_id mg) g
          else uuidv5 lib m False (sa_langs mg) (sa_url mg) None g)"
  by (simp_all add: searchResultsBuilder_def id_of_def split: prod.splits sum.splits)

lemma unforced_ids_agree:
  assumes "stable_generator lib" "u \<noteq> []"
  shows "id_of (\<lambda>i. i) (uuidv5 lib m False langs u None g) \<noteq> None
       \<and> id_of (\<lambda>i. i) (uuidv5 lib m False langs u None g')
           = id_of (\<lambda>i. i) (uuidv5 lib m False langs u None g)"
proof -
  obtain i g1 g2 where "uuidv5 lib m False langs u None g = (Inr i, g1)"
    "uuidv5 lib m False langs u None g' = (Inr i, g2)"
    using uuidv5_unforced_twice [OF assms] by blast
  then show ?thesis by (simp add: id_of_def)
qed

text \<open>
  C3. With a stable generator and the library store as it is, any two calls of a builder
  without a forced id, on arguments of the same non-empty url and the same languages,
  both return, with the same identifier: whatever the other fields of the arguments are
  and whatever states \<open>g\<close> and \<open>g'\<close> the generator is in at the two calls (so whatever
  was built in between). And when the library store answers the forced id within the
  given languages with a record, each builder returns that record's identifier and the
  generator is not asked (its state is unchanged).
\<close>

theorem builders_assign_stable_ids:
  assumes "stable_generator lib"
  shows "(or_else (mg_id a) [] = [] \<and> or_else (mg_id b) [] = [] \<and> mg_url a \<noteq> []
            \<and> mg_url b = mg_url a \<and> mg_langs b = mg_langs a \<longrightarrow>
          id_of page_id (mangaPageBuilder lib m a g) \<noteq> None
          \<and> id_of page_id (mangaPageBuilder lib m b g')
              = id_of page_id (mangaPageBuilder lib m a g))
       \<and> (or_else (ca_id c) [] = [] \<and> or_else (ca_id d) [] = [] \<and> ca_url c \<noteq> []
            \<and> ca_url d = ca_url c \<and> ca_lang d = ca_lang c \<longrightarrow>
          id_of ch_id (chaptersBuilder lib m c g) \<noteq> None
          \<and> id_of ch_id (chaptersBuilder lib m d g')
              = id_of ch_id (chaptersBuilder lib m c g))
       \<and> (or_else (sa_id s) [] = [] \<and> or_else (sa_id t) [] = [] \<and> sa_url s \<noteq> []
            \<and> sa_url t = sa_url s \<and> sa_langs t = sa_langs s \<longrightarrow>
          id_of result_id (searchResultsBuilder lib m s g) \<noteq> None
          \<and> id_of result_id (searchResultsBuilder lib m t g')
              = id_of result_id (searchResultsBuilder lib m s g))
       \<and> (fid \<noteq> [] \<and> MangaDatabase_get lib (ById fid langs) = Some stored \<longrightarrow>
            (mg_id a = Some fid \<and> mg_langs a = langs \<longrightarrow>
               id_of page_id (mangaPageBuilder lib m a g) = Some (stored_id stored)
               \<and> snd (mangaPageBuilder lib m a g) = g)
          \<and> (ca_id c = Some fid \<and> [ca_lang c] = langs \<longrightarrow>
               id_of ch_id (chaptersBuilder lib m c g) = Some (stored_id stored)
               \<and> snd (chaptersBuilder lib m c g) = g)
          \<and> (sa_id s = Some fid \<and> sa_langs s = langs \<longrightarrow>
               id_of result_id (searchResultsBuilder lib m s g) = Some (stored_id stored)
               \<and> snd (searchResultsBuilder lib m s g) = g))"
proof (intro conjI impI)
  assume h: "or_else (mg_id a) [] = [] \<and> or_else (mg_id b) [] = [] \<and> mg_url a \<noteq> []
            \<and> mg_url b = mg_url a \<and> mg_langs b = mg_langs a"
  then have u: "mg_url a \<noteq> []" by simp
  show "id_of page_id (mangaPageBuilder lib m a g) \<noteq> None"
    using h unforced_ids_agree [OF assms u] by (simp add: mangaPageBuilder_id)
  show "id_of page_id (mangaPageBuilder lib m b g')
              = id_of page_id (mangaPageBuilder lib m a g)"
    using h unforced_ids_agree [OF assms u] by (simp add: mangaPageBuilder_id)
next
  assume h: "or_else (ca_id c) [] = [] \<and> or_else (ca_id d) [] = [] \<and> ca_url c \<noteq> []
            \<and> ca_url d = ca_url c \<and> ca_lang d = ca_lang c"
  then have u: "ca_url c \<noteq> []" by simp
  show "id_of ch_id (chaptersBuilder lib m c g) \<noteq> None"
    using h unforced_ids_agree [OF assms u] by (simp add: chaptersBuilder_id)
  show "id_of ch_id (chaptersBuilder lib m d g')
              = id_of ch_id (chaptersBuilder lib m c g)"
    using h unforced_ids_agree [OF assms u] by (simp add: chaptersBuilder_id)
next
  assume h: "or_else (sa_id s) [] = [] \<and> or_else (sa_id t) [] = [] \<and> sa_url s \<noteq> []
            \<and> sa_url t = sa_url s \<and> sa_langs t = sa_langs s"
  then have u: "sa_url s \<noteq> []" by simp
  show "id_of result_id (searchResultsBuilder lib m s g) \<noteq> None"
    using h unforced_ids_agree [OF assms u] by (simp add: searchResultsBuilder_id)
  show "id_of result_id (searchResultsBuilder lib m t g')
              = id_of result_id (searchResultsBuilder lib m s g)"
    using h unforced_ids_agree [OF assms u] by (simp add: searchResultsBuilder_id)
next
  assume f: "fid \<noteq> [] \<and> MangaDatabase_get lib (ById fid langs) = Some stored"
    and h: "mg_id a = Some fid \<and> mg_langs a = langs"
  have "or_else (mg_id a) [] \<noteq> []" using f h by (simp add: or_else_def)
  then show "id_of page_id (mangaPageBuilder lib m a g) = Some (stored_id stored)"
    and "snd (mangaPageBuilder lib m a g) = g"
    unfolding mangaPageBuilder_id
    using f h uuidv5_forced_existing [of fid lib langs stored m "mg_url a" g]
    by (simp_all add: id_of_def)
next
  assume f: "fid \<noteq> [] \<and> MangaDatabase_get lib (ById fid langs) = Some stored"
    and h: "ca_id c = Some fid \<and> [ca_lang c] = langs"
  have "or_else (ca_id c) [] \<noteq> []" using f h by (simp add: or_else_def)
  then show "id_of ch_id (chaptersBuilder lib m c g) = Some (stored_id stored)"
    and "snd (chaptersBuilder lib m c g) = g"
    unfolding chaptersBuilder_id
    using f h uuidv5_forced_existing [of fid lib langs stored m "ca_url c" g]
    by (simp_all add: id_of_def)
next
  assume f: "fid \<noteq> [] \<and> MangaDatabase_get lib (ById fid langs) = Some stored"
    and h: "sa_id s = Some fid \<and> sa_langs s = langs"
  have "or_else (sa_id s) [] \<noteq> []" using f h by (simp add: or_else_def)
  then show "id_of result_id (searchResultsBuilder lib m s g) = Some (stored_id stored)"
    and "snd (searchResultsBuilder lib m s g) = g"
    unfolding searchResultsBuilder_id
    using f h uuidv5_forced_existing [of fid lib langs stored m "sa_url s" g]
    by (simp_all add: id_of_def)
qed

theorem builders_assign_stable_ids_witness:
  "stable_generator sample_library
   \<and> id_of page_id (mangaPageBuilder sample_library sample_mirror sample_manga 0) = Some ''mirror:en:/manga/xyz''
   \<and> id_of page_id (mangaPageBuilder sample_library sample_mirror (sample_manga\<lparr>mg_chapters :=
        [\<lparr>ch_id = ''c1'', ch_lang = ''en'', ch_url = ''/c/1'', ch_number = 1, ch_date = 0, ch_read = False\<rparr>]\<rparr>)
        (snd (mangaPageBuilder sample_library sample_mirror (sample_manga\<lparr>mg_url := ''/manga/other''\<rparr>)
               (snd (mangaPageBuilder sample_library sample_mirror sample_manga 0)))))
       = Some ''mirror:en:/manga/xyz''
   \<and> id_of page_id (mangaPageBuilder sample_library sample_mirror (sample_manga\<lparr>mg_id := Some ''4d6f''\<rparr>) 0)
        = Some ''4d6f''
   \<and> snd (mangaPageBuilder sample_library sample_mirror (sample_manga\<lparr>mg_id := Some ''4d6f''\<rparr>) 0) = 0"
proof -
  have st: "stable_generator sample_library"
    by (simp add: stable_generator_def sample_library_def)
  have first: "id_of page_id (mangaPageBuilder sample_library sample_mirror sample_manga 0) = Some ''mirror:en:/manga/xyz''"
    by (simp add: mangaPageBuilder_def uuidv5_def id_of_def sample_library_def sample_manga_def
        sample_mirror_def or_else_def)
  have db: "MangaDatabase_get sample_library (ById ''4d6f'' [''en'']) = Some \<lparr>stored_id = ''4d6f''\<rparr>"
    by (simp add: sample_library_def)
  show ?thesis
    using st first db
      builders_assign_stable_ids [OF st, where a = sample_manga
        and b = "sample_manga\<lparr>mg_chapters :=
        [\<lparr>ch_id = ''c1'', ch_lang = ''en'', ch_url = ''/c/1'', ch_number = 1, ch_date = 0, ch_read = False\<rparr>]\<rparr>"
        and m = sample_mirror and g = 0
        and g' = "snd (mangaPageBuilder sample_library sample_mirror (sample_manga\<lparr>mg_url := ''/manga/other''\<rparr>)
               (snd (mangaPageBuilder sample_library sample_mirror sample_manga 0)))"]
      builders_assign_stable_ids [OF st, where a = "sample_manga\<lparr>mg_id := Some ''4d6f''\<rparr>"
        and fid = "''4d6f''" and langs = "[''en'']" and stored = "\<lparr>stored_id = ''4d6f''\<rparr>"
        and m = sample_mirror and g = 0]
    by (simp add: sample_manga_def or_else_def)
qed




theorem cache_hit_calls_no_transport_witness:
  "generateCacheFilename sample_env ''https://cdn.mirror.com/covers/xyz?token=7'' False
      = Inr (''https://cdn.mirror.com/covers/xyz'', ''https!cdn.mirror.com!covers!xyz'')
   \<and> USER_DATA sample_env = Some ''/data'' \<and> cacheEnabled sample_env
   \<and> cache_dir (sample_world\<lparr>cache_dir := [''https!cdn.mirror.com!covers!xyz'' \<mapsto> [104, 105]]\<rparr>)
        ''https!cdn.mirror.com!covers!xyz'' = Some [104, 105]
   \<and> getFileMime sample_env [104, 105] = Inr ''image/jpeg''
   \<and> fst (downloadImage sample_env sample_mirror ''https://cdn.mirror.com/covers/xyz?token=7'' ''cover''
             None False None
             (sample_world\<lparr>cache_dir := [''https!cdn.mirror.com!covers!xyz'' \<mapsto> [104, 105]]\<rparr>))
        = Inr (JString ''data:image/jpeg;base64,aGk='')
   \<and> trace (snd (downloadImage sample_env sample_mirror ''https://cdn.mirror.com/covers/xyz?token=7'' ''cover''
             None False None
             (sample_world\<lparr>cache_dir := [''https!cdn.mirror.com!covers!xyz'' \<mapsto> [104, 105]]\<rparr>)))
        = []"
proof -
  let ?w = "sample_world\<lparr>cache_dir := [''https!cdn.mirror.com!covers!xyz'' \<mapsto> [104, 105]]\<rparr>"
  have a: "generateCacheFilename sample_env ''https://cdn.mirror.com/covers/xyz?token=7'' False
      = Inr (''https://cdn.mirror.com/covers/xyz'', ''https!cdn.mirror.com!covers!xyz'')"
    by (simp add: generateCacheFilename_def sample_env_def)
  have b: "USER_DATA sample_env = Some ''/data''" and c: "cacheEnabled sample_env"
    by (simp_all add: sample_env_def)
  have d: "cache_dir ?w ''https!cdn.mirror.com!covers!xyz'' = Some [104, 105]" by simp
  have g: "getFileMime sample_env [104, 105] = Inr ''image/jpeg''"
    by (simp add: getFileMime_def sample_env_def)
  have h: "''cover'' \<noteq> ''cover'' \<or> getFileMime sample_env [104, 105] = Inr ''image/jpeg''"
    using g by simp
  have e64: "base64 sample_env [104, 105] = ''aGk=''" by (simp add: sample_env_def)
  note t = cache_hit_calls_no_transport [OF a b c d h, where m = sample_mirror and ref = None
      and config = None]
  have "downloadImage sample_env sample_mirror ''https://cdn.mirror.com/covers/xyz?token=7'' ''cover''
             None False None ?w
        = returnFetch (JString (''data:image/jpeg;base64,'' @ base64 sample_env [104, 105]))
             (Some ''https!cdn.mirror.com!covers!xyz'')
             (?w\<lparr>concurrency := enter (concurrency ?w)\<rparr>)"
    using t by simp
  then have g1: "fst (downloadImage sample_env sample_mirror ''https://cdn.mirror.com/covers/xyz?token=7'' ''cover''
             None False None ?w) = Inr (JString ''data:image/jpeg;base64,aGk='')"
    by (simp add: returnFetch_plain e64)
  have g2: "trace (snd (downloadImage sample_env sample_mirror ''https://cdn.mirror.com/covers/xyz?token=7'' ''cover''
             None False None ?w)) = []"
  proof -
    have "trace (snd (downloadImage sample_env sample_mirror ''https://cdn.mirror.com/covers/xyz?token=7''
             ''cover'' None False None ?w)) = trace ?w"
      using t by blast
    then show ?thesis by (simp add: sample_world_def)
  qed
  show ?thesis using a b c d g g1 g2 by simp
qed

theorem json_and_string_of_text_body_witness:
  "fst (internalFetch sample_env sample_mirror (sample_job\<lparr>waitForSelector := None\<rparr>) ''json'')
      = Inr (JString ''<html>loading</html>'')
   \<and> fst (internalFetch sample_env sample_mirror (sample_job\<lparr>waitForSelector := None\<rparr>) ''string'')
      = Inr (JString ''<html>loading</html>'')
   \<and> JSON_parse sample_env ''<html>loading</html>'' = None
   \<and> fst (fetch sample_env sample_mirror (sample_job\<lparr>waitForSelector := None\<rparr>) ''json'' sample_world)
      = Inl (JError ''invalid_json'')
   \<and> fst (fetch sample_env sample_mirror (sample_job\<lparr>waitForSelector := None\<rparr>) ''string'' sample_world)
      = Inr (JString ''<html>loading</html>'')"
proof -
  let ?job = "sample_job\<lparr>waitForSelector := None\<rparr>"
  have a: "fst (internalFetch sample_env sample_mirror ?job ''json'') = Inr (JString ''<html>loading</html>'')"
    by (simp add: internalFetch_def Let_def direct_attempt_def prepare_fields sample_env_def or_else_def)
  have b: "fst (internalFetch sample_env sample_mirror ?job ''string'') = Inr (JString ''<html>loading</html>'')"
    by (simp add: internalFetch_def Let_def direct_attempt_def prepare_fields sample_env_def or_else_def)
  have c: "JSON_parse sample_env ''<html>loading</html>'' = None" by (simp add: sample_env_def)
  show ?thesis
    using a b c json_and_string_of_text_body [OF a b c, of sample_world] by simp
qed

end
